theory Spec2Isabelle
  imports Complex_Main
begin

section \<open>Python values shared by the handlers\<close>

text \<open>
  The exceptions of the Python run time and of the chat transport that the modelled
  code raises, catches or lets escape.  A computation that can raise returns
  \<open>py_error + 'a\<close>, with \<open>Inl\<close> for the exception.
\<close>

datatype py_error =
    AttributeError
  | UnboundLocalError
  | OverflowError
  | ValueError
  | IndexError
  | TypeError
  | UnicodeEncodeError
  | UnicodeDecodeError
  | BinasciiError
  | SyntaxError
  | ZeroDivisionError
  | ChatAdminRequired
  | UserAdminInvalid
  | BadRequest
  | Forbidden
  | MessageIdInvalid
  | PeerIdInvalid
  | OtherError

text \<open>
  Command tokens and durations are ASCII text: a \<open>string\<close>, one \<open>char\<close> per
  character.  \<open>is_digit\<close> is the class \<open>[0-9]\<close>, \<open>lower_char\<close> is
  \<open>str.lower\<close> on one ASCII character.
\<close>

definition is_digit :: "char \<Rightarrow> bool" where
  "is_digit c \<longleftrightarrow> 48 \<le> (of_char c :: nat) \<and> (of_char c :: nat) \<le> 57"

definition digit_val :: "char \<Rightarrow> nat" where
  "digit_val c = of_char c - 48"

definition lower_char :: "char \<Rightarrow> char" where
  "lower_char c =
     (case map_of (zip ''ABCDEFGHIJKLMNOPQRSTUVWXYZ'' ''abcdefghijklmnopqrstuvwxyz'') c of
        Some l \<Rightarrow> l
      | None \<Rightarrow> c)"

definition lower :: "string \<Rightarrow> string" where
  "lower s = map lower_char s"

text \<open>\<open>int(value_str)\<close> on a non-empty run of decimal digits.\<close>

definition int_of_digits :: "string \<Rightarrow> nat" where
  "int_of_digits ds = foldl (\<lambda>n c. 10 * n + digit_val c) 0 ds"

section \<open>Duration parsing (\<open>parse_time_duration\<close>, self2.py)\<close>

text \<open>
  \<open>re.compile(r'(\d+)([dhms])').findall\<close>: the non-overlapping matches from left to
  right.  A match is a maximal run of digits directly followed by one of the four unit
  letters; a run followed by anything else yields nothing.  The first argument is the
  run of digits read so far.
\<close>

definition unit_letter :: "char \<Rightarrow> bool" where
  "unit_letter c \<longleftrightarrow> c = CHR ''d'' \<or> c = CHR ''h'' \<or> c = CHR ''m'' \<or> c = CHR ''s''"

fun findall_from :: "string \<Rightarrow> string \<Rightarrow> (string \<times> char) list" where
  "findall_from run [] = []"
| "findall_from run (c # cs) =
     (if is_digit c then findall_from (run @ [c]) cs
      else if run \<noteq> [] \<and> unit_letter c then (run, c) # findall_from [] cs
      else findall_from [] cs)"

definition findall :: "string \<Rightarrow> (string \<times> char) list" where
  "findall s = findall_from [] s"

text \<open>The body of the \<open>for value_str, unit in matches\<close> loop.\<close>

definition unit_seconds :: "string \<times> char \<Rightarrow> nat" where
  "unit_seconds m =
     (let value = int_of_digits (fst m); unit = snd m in
      if unit = CHR ''d'' then value * 86400
      else if unit = CHR ''h'' then value * 3600
      else if unit = CHR ''m'' then value * 60
      else if unit = CHR ''s'' then value
      else 0)"

fun total_seconds :: "nat \<Rightarrow> (string \<times> char) list \<Rightarrow> nat" where
  "total_seconds acc [] = acc"
| "total_seconds acc (m # ms) = total_seconds (acc + unit_seconds m) ms"

text \<open>
  \<open>timedelta(seconds=n)\<close> holds at most 999999999 days; the constructor raises
  \<open>OverflowError\<close> beyond that.  A duration is its number of seconds.
\<close>

definition timedelta :: "nat \<Rightarrow> py_error + nat" where
  "timedelta n = (if 999999999 < n div 86400 then Inl OverflowError else Inr n)"

definition parse_time_duration :: "string \<Rightarrow> py_error + nat option" where
  "parse_time_duration duration_str =
     (let matches = findall (lower duration_str) in
      if matches = [] then Inr None
      else
        let total = total_seconds 0 matches in
        if total = 0 then Inr None
        else (case timedelta total of Inl e \<Rightarrow> Inl e | Inr d \<Rightarrow> Inr (Some d)))"


subsection \<open>Duration parsing on Unicode text\<close>









section \<open>Messages and the argument resolver\<close>

text \<open>
  The fields of a transport \<open>Message\<close> that the modelled handlers read.  \<open>command\<close>
  is the token list of a command message (the command name first); \<open>chat_type\<close> is the
  value the gate compares with the strings \<open>"group"\<close> and \<open>"supergroup"\<close>;
  \<open>sender_chat\<close> is the identifier of the chat a message was sent on behalf of.
\<close>

record user =
  user_id :: int
  is_bot :: bool
  is_self :: bool

record replied_message =
  replied_id :: int
  replied_from_user :: "user option"
  replied_text :: "string option"

record message =
  message_id :: int
  chat_id :: int
  chat_type :: string
  command :: "string list"
  from_user :: "user option"
  reply_to_message :: "replied_message option"
  mentioned :: bool
  outgoing :: bool
  sender_chat :: "int option"

text \<open>\<open>" ".join(tokens)\<close>.\<close>

fun join_space :: "string list \<Rightarrow> string" where
  "join_space [] = []"
| "join_space [t] = t"
| "join_space (t # ts) = t @ '' '' @ join_space ts"

definition extract_arg :: "message \<Rightarrow> string option" where
  "extract_arg m =
     (if length (command m) > 1 then Some (join_space (tl (command m))) else None)"

text \<open>
  \<open>int(text)\<close> on ASCII text: blanks around the number are dropped, a sign may lead,
  and single underscores may separate digits; anything else raises \<open>ValueError\<close>.
\<close>

definition is_blank :: "char \<Rightarrow> bool" where
  "is_blank c \<longleftrightarrow> (9 \<le> (of_char c :: nat) \<and> (of_char c :: nat) \<le> 13) \<or> c = CHR '' ''"

definition strip :: "string \<Rightarrow> string" where
  "strip s = rev (dropWhile is_blank (rev (dropWhile is_blank s)))"

fun digits_tail_ok :: "string \<Rightarrow> bool" where
  "digits_tail_ok [] = True"
| "digits_tail_ok [c] = is_digit c"
| "digits_tail_ok (c # d # cs) =
     (if is_digit c then digits_tail_ok (d # cs)
      else c = CHR ''_'' \<and> is_digit d \<and> digits_tail_ok cs)"

definition digits_ok :: "string \<Rightarrow> bool" where
  "digits_ok s = (case s of [] \<Rightarrow> False | c # cs \<Rightarrow> is_digit c \<and> digits_tail_ok cs)"

definition py_int :: "string \<Rightarrow> py_error + int" where
  "py_int s =
     (let t = strip s;
          neg = (t \<noteq> [] \<and> hd t = CHR ''-'');
          body = (if t \<noteq> [] \<and> (hd t = CHR ''-'' \<or> hd t = CHR ''+'') then tl t else t)
      in if digits_ok body
         then Inr ((if neg then -1 else 1) * int (int_of_digits (filter is_digit body)))
         else Inl ValueError)"

text \<open>
  \<open>get_target_user_id\<close> (self2.py).  \<open>get_users\<close> is the transport's lookup of a
  user name; only its \<open>PeerIdInvalid\<close> is caught here.
\<close>

definition get_target_user_id ::
  "(string \<Rightarrow> py_error + int) \<Rightarrow> message \<Rightarrow> py_error + int option" where
  "get_target_user_id get_users m =
     (case (case reply_to_message m of
              None \<Rightarrow> None
            | Some r \<Rightarrow> replied_from_user r) of
        Some u \<Rightarrow> Inr (Some (user_id u))
      | None \<Rightarrow>
          if length (command m) > 1 then
            (case py_int (command m ! 1) of
               Inr n \<Rightarrow> Inr (Some n)
             | Inl _ \<Rightarrow>
                 (case get_users (command m ! 1) of
                    Inr n \<Rightarrow> Inr (Some n)
                  | Inl PeerIdInvalid \<Rightarrow> Inr None
                  | Inl e \<Rightarrow> Inl e))
          else Inr None)"

section \<open>The ban and mute handlers (self2.py)\<close>

text \<open>
  What a handler does to the outside, in order.  The texts of the edits are named after
  what they say.
\<close>

datatype restrict_text =
    PleaseReplyToUser
  | CannotActOnMyself
  | InvalidDurationPermanently
  | Done int "nat option" string
  | CannotActOnThisUser
  | BadRequestDuring
  | ErrorDuring py_error

datatype restrict_action =
    BanChatMember int "nat option"
  | RestrictChatMember int "nat option"
  | EditRestrict restrict_text

text \<open>
  The body shared by \<open>ban_command_handler\<close> and \<open>mute_command_handler\<close>, which differ
  in the transport call (\<open>call\<close>) only.  \<open>now\<close> is \<open>datetime.utcnow()\<close> in seconds,
  \<open>outcome\<close> is the exception of the transport call, if any.

  With more than two tokens the handler evaluates \<open>possible_duration_str.lower()\<close>, where
  \<open>possible_duration_str = args\<close> is the token list itself: a list has no \<open>lower\<close>, so
  \<open>AttributeError\<close> is raised, outside every \<open>try\<close>.  With at most two tokens
  \<open>duration_str\<close> stays \<open>None\<close>, the local \<open>duration\<close> is never bound, and reading it
  after the transport call raises \<open>UnboundLocalError\<close> inside the \<open>try\<close>, which the last
  \<open>except\<close> clause reports.
\<close>

definition restrict_command_handler ::
  "(int \<Rightarrow> nat option \<Rightarrow> restrict_action) \<Rightarrow> int \<Rightarrow> (string \<Rightarrow> py_error + int) \<Rightarrow>
   py_error option \<Rightarrow> message \<Rightarrow> py_error + restrict_action list" where
  "restrict_command_handler call me get_users outcome m =
     (case get_target_user_id get_users m of
        Inl e \<Rightarrow> Inl e
      | Inr None \<Rightarrow> Inr [EditRestrict PleaseReplyToUser]
      | Inr (Some target_user_id) \<Rightarrow>
          if target_user_id = 0 then Inr [EditRestrict PleaseReplyToUser]
          else if target_user_id = me then Inr [EditRestrict CannotActOnMyself]
          else if length (command m) > 2 then Inl AttributeError
          else
            (case outcome of
               Some UserAdminInvalid \<Rightarrow> Inr [EditRestrict CannotActOnThisUser]
             | Some BadRequest \<Rightarrow> Inr [EditRestrict BadRequestDuring]
             | Some e \<Rightarrow> Inr [EditRestrict (ErrorDuring e)]
             | None \<Rightarrow>
                 Inr [call target_user_id None, EditRestrict (ErrorDuring UnboundLocalError)]))"

definition ban_command_handler ::
  "int \<Rightarrow> (string \<Rightarrow> py_error + int) \<Rightarrow> py_error option \<Rightarrow> message \<Rightarrow>
   py_error + restrict_action list" where
  "ban_command_handler = restrict_command_handler BanChatMember"

definition mute_command_handler ::
  "int \<Rightarrow> (string \<Rightarrow> py_error + int) \<Rightarrow> py_error option \<Rightarrow> message \<Rightarrow>
   py_error + restrict_action list" where
  "mute_command_handler = restrict_command_handler RestrictChatMember"

section \<open>The AFK subsystem\<close>

text \<open>
  The global \<open>AFK_STATUS\<close> dictionary and, in self2.py, the \<open>AFKState\<close> row that
  mirrors it.  Times are the readings of the event loop's clock, in seconds.
\<close>

record afk_status =
  is_afk :: bool
  reason :: "string option"
  start_time :: "real option"
  last_afk_message_time :: "int \<rightharpoonup> real"

record afk_row =
  row_user_id :: int
  row_is_afk :: bool
  row_reason :: "string option"
  row_start_time :: "real option"

definition AFK_MESSAGE_COOLDOWN :: real where
  "AFK_MESSAGE_COOLDOWN = 60"

text \<open>The value of \<open>AFK_STATUS\<close> when the module is loaded.\<close>

definition AFK_STATUS_initial :: afk_status where
  "AFK_STATUS_initial =
     \<lparr>is_afk = False, reason = None, start_time = None, last_afk_message_time = Map.empty\<rparr>"

datatype afk_text =
    AfkDisabled
  | AfkEnabled string
  | AfkUnavailable "string option" real

text \<open>
  \<open>afk_command_handler\<close> of self2.py: the new status, the new row and the edit of the
  command message.  \<open>now\<close> is the clock reading, \<open>me\<close> the owner's identifier.
  The first statement logs \<open>message.from_user.id\<close>: for a message without
  \<open>from_user\<close> it raises \<open>AttributeError\<close>, outside every \<open>try\<close> and before the
  status is read.
\<close>

definition afk_reason :: "message \<Rightarrow> string" where
  "afk_reason m =
     (case extract_arg m of
        None \<Rightarrow> ''Not available at the moment.''
      | Some r \<Rightarrow> if r = [] then ''Not available at the moment.'' else r)"

definition afk_command_handler ::
  "int \<Rightarrow> real \<Rightarrow> message \<Rightarrow> afk_status \<times> afk_row option \<Rightarrow>
   py_error + (afk_status \<times> afk_row option) \<times> afk_text" where
  "afk_command_handler me now m w =
     (let st = fst w; afk_db_state = snd w in
      if from_user m = None then Inl AttributeError
      else if is_afk st then
        Inr ((st\<lparr>is_afk := False, reason := None, start_time := None,
                  last_afk_message_time := Map.empty\<rparr>,
              map_option (\<lambda>r. r\<lparr>row_is_afk := False, row_reason := None,
                                   row_start_time := None\<rparr>) afk_db_state),
             AfkDisabled)
      else
        let r = afk_reason m;
            row = (case afk_db_state of
                     None \<Rightarrow> \<lparr>row_user_id = me, row_is_afk = False, row_reason = None,
                                row_start_time = None\<rparr>
                   | Some x \<Rightarrow> x)
        in Inr ((st\<lparr>is_afk := True, reason := Some r, start_time := Some now,
                     last_afk_message_time := Map.empty\<rparr>,
                 Some (row\<lparr>row_is_afk := True, row_reason := Some r,
                            row_start_time := Some now\<rparr>)),
                AfkEnabled r))"

text \<open>
  \<open>afk_command_handler\<close> of self.py: the same first statement and the same toggle,
  without the row.
\<close>

text \<open>The default reason of self.py is not ASCII; these are its UTF-8 bytes.\<close>

definition default_reason_self :: string where
  "default_reason_self =
     map char_of
       [216, 175, 216, 177, 216, 173, 216, 167, 217, 132, 32, 216, 173, 216, 167, 216,
        182, 216, 177, 32, 217, 134, 219, 140, 216, 179, 216, 170, 217, 133, 46 :: nat]"

definition afk_reason_self :: "message \<Rightarrow> string" where
  "afk_reason_self m =
     (case extract_arg m of
        None \<Rightarrow> default_reason_self
      | Some r \<Rightarrow> if r = [] then default_reason_self else r)"

definition afk_command_handler_self ::
  "real \<Rightarrow> message \<Rightarrow> afk_status \<Rightarrow> py_error + afk_status \<times> afk_text" where
  "afk_command_handler_self now m st =
     (if from_user m = None then Inl AttributeError
      else if is_afk st then
        Inr (st\<lparr>is_afk := False, reason := None, start_time := None,
                 last_afk_message_time := Map.empty\<rparr>,
             AfkDisabled)
      else
        let r = afk_reason_self m
        in Inr (st\<lparr>is_afk := True, reason := Some r, start_time := Some now,
                    last_afk_message_time := Map.empty\<rparr>,
                AfkEnabled r))"

text \<open>
  The filter of the listener:
  \<open>filters.private & ~filters.me | filters.group & ~filters.me & filters.mentioned\<close>.
\<close>

definition filters_me :: "message \<Rightarrow> bool" where
  "filters_me m \<longleftrightarrow> (case from_user m of Some u \<Rightarrow> is_self u | None \<Rightarrow> False) \<or> outgoing m"

definition filters_private :: "message \<Rightarrow> bool" where
  "filters_private m \<longleftrightarrow> chat_type m = ''private'' \<or> chat_type m = ''bot''"

definition filters_group :: "message \<Rightarrow> bool" where
  "filters_group m \<longleftrightarrow> chat_type m = ''group'' \<or> chat_type m = ''supergroup''"

definition afk_reply_filter :: "message \<Rightarrow> bool" where
  "afk_reply_filter m \<longleftrightarrow>
     (filters_private m \<and> \<not> filters_me m) \<or>
     (filters_group m \<and> \<not> filters_me m \<and> mentioned m)"

text \<open>
  \<open>afk_reply_handler\<close> of self2.py: the new status and the reply that is attempted, if
  any.  The check of the cooldown and the update of the time stamp are one step, as in
  the source, where nothing is awaited between them.  A failure of \<open>reply_text\<close> is
  logged and changes nothing.
\<close>

definition in_cooldown :: "afk_status \<Rightarrow> int \<Rightarrow> real \<Rightarrow> bool" where
  "in_cooldown st uid current_time =
     (case last_afk_message_time st uid of
        None \<Rightarrow> False
      | Some last_time \<Rightarrow> current_time - last_time < AFK_MESSAGE_COOLDOWN)"

definition afk_reply_handler ::
  "int \<Rightarrow> real \<Rightarrow> message \<Rightarrow> afk_status \<Rightarrow> afk_status \<times> afk_text option" where
  "afk_reply_handler me current_time m st =
     (case from_user m of
        None \<Rightarrow> (st, None)
      | Some u \<Rightarrow>
          if \<not> is_afk st \<or> is_bot u then (st, None)
          else if user_id u = me then (st, None)
          else if (case sender_chat m of
                     None \<Rightarrow> False
                   | Some c \<Rightarrow> c \<noteq> chat_id m \<and> \<not> mentioned m) then (st, None)
          else if in_cooldown st (user_id u) current_time then (st, None)
          else
            let elapsed_time_seconds =
                  current_time -
                  (case start_time st of
                     None \<Rightarrow> current_time
                   | Some t \<Rightarrow> if t = 0 then current_time else t);
                reason_text =
                  (case reason st of
                     None \<Rightarrow> None
                   | Some r \<Rightarrow> if r = [] then None else Some r)
            in (st\<lparr>last_afk_message_time :=
                      (last_afk_message_time st)(user_id u \<mapsto> current_time)\<rparr>,
                Some (AfkUnavailable reason_text elapsed_time_seconds)))"

text \<open>
  The listener over a stream of inbound messages, each with the clock reading at which
  it is handled: the replies attempted, each with the message it answers, and the
  final status.  A message that the filter rejects does not reach the handler.
\<close>

definition afk_listener ::
  "int \<Rightarrow> real \<Rightarrow> message \<Rightarrow> afk_status \<Rightarrow> afk_status \<times> afk_text option" where
  "afk_listener me current_time m st =
     (if afk_reply_filter m then afk_reply_handler me current_time m st else (st, None))"

fun afk_replies ::
  "int \<Rightarrow> afk_status \<Rightarrow> (real \<times> message) list \<Rightarrow> (message \<times> afk_text) list" where
  "afk_replies me st [] = []"
| "afk_replies me st (e # es) =
     (case snd (afk_listener me (fst e) (snd e) st) of
        None \<Rightarrow> afk_replies me (fst (afk_listener me (fst e) (snd e) st)) es
      | Some r \<Rightarrow> (snd e, r) # afk_replies me (fst (afk_listener me (fst e) (snd e) st)) es)"

fun afk_final :: "int \<Rightarrow> afk_status \<Rightarrow> (real \<times> message) list \<Rightarrow> afk_status" where
  "afk_final me st [] = st"
| "afk_final me st (e # es) = afk_final me (fst (afk_listener me (fst e) (snd e) st)) es"

text \<open>The sender of a message, and the replies that answer a given counterpart.\<close>

definition sender :: "message \<Rightarrow> int option" where
  "sender m = map_option user_id (from_user m)"

definition replies_to :: "int \<Rightarrow> (message \<times> afk_text) list \<Rightarrow> (message \<times> afk_text) list" where
  "replies_to c rs = filter (\<lambda>r. sender (fst r) = Some c) rs"

text \<open>
  A qualifying message of counterpart \<open>c\<close>: a private message, or a group message that
  mentions the owner, sent by \<open>c\<close>, who is neither the owner nor a bot.  Private messages
  are not sent on behalf of a chat.
\<close>

definition qualifying :: "int \<Rightarrow> int \<Rightarrow> message \<Rightarrow> bool" where
  "qualifying me c m \<longleftrightarrow>
     c \<noteq> me \<and>
     (case from_user m of
        None \<Rightarrow> False
      | Some u \<Rightarrow> user_id u = c \<and> \<not> is_bot u \<and> \<not> is_self u) \<and>
     \<not> outgoing m \<and>
     ((filters_private m \<and> sender_chat m = None) \<or> (filters_group m \<and> mentioned m))"

text \<open>
  The two kinds of event that touch \<open>AFK_STATUS\<close>: the owner's \<open>.afk\<close> command and an
  inbound message offered to the listener.  \<open>afk_run\<close> is the state after a sequence of
  them, handled one after the other; a command whose handler raises leaves the state
  as it was.
\<close>

datatype afk_event = AfkCommand real message | Inbound real message

fun afk_step ::
  "int \<Rightarrow> afk_event \<Rightarrow> afk_status \<times> afk_row option \<Rightarrow> afk_status \<times> afk_row option" where
  "afk_step me (AfkCommand now m) w =
     (case afk_command_handler me now m w of Inl e \<Rightarrow> w | Inr r \<Rightarrow> fst r)"
| "afk_step me (Inbound now m) w = (fst (afk_listener me now m (fst w)), snd w)"

fun afk_run ::
  "int \<Rightarrow> afk_event list \<Rightarrow> afk_status \<times> afk_row option \<Rightarrow> afk_status \<times> afk_row option" where
  "afk_run me [] w = w"
| "afk_run me (e # es) w = afk_run me es (afk_step me e w)"

text \<open>The invariant of the data model: an inactive status carries nothing over.\<close>

definition afk_invariant :: "afk_status \<Rightarrow> bool" where
  "afk_invariant st \<longleftrightarrow>
     (\<not> is_afk st \<longrightarrow>
        reason st = None \<and> start_time st = None \<and> last_afk_message_time st = Map.empty)"

text \<open>Sample data: a private message of a user, and the status right after \<open>.afk\<close>.\<close>

definition private_message_from :: "int \<Rightarrow> message" where
  "private_message_from uid =
     \<lparr>message_id = 7, chat_id = uid, chat_type = ''private'', command = [],
      from_user = Some \<lparr>user_id = uid, is_bot = False, is_self = False\<rparr>,
      reply_to_message = None, mentioned = False, outgoing = False, sender_chat = None\<rparr>"

definition afk_command_message :: message where
  "afk_command_message =
     \<lparr>message_id = 5, chat_id = 1, chat_type = ''private'', command = [''afk'', ''lunch''],
      from_user = Some \<lparr>user_id = 1, is_bot = False, is_self = True\<rparr>,
      reply_to_message = None, mentioned = False, outgoing = True, sender_chat = None\<rparr>"

definition afk_active_sample :: afk_status where
  "afk_active_sample =
     \<lparr>is_afk = True, reason = Some ''lunch'', start_time = Some 100,
      last_afk_message_time = Map.empty\<rparr>"

section \<open>The permission gate (\<open>require_admin_rights\<close>, self2.py)\<close>

text \<open>
  The membership record that \<open>get_chat_member\<close> returns, as far as the gate reads it:
  \<open>getattr(me_member, perm, False)\<close> for every capability name, and the value of
  \<open>me_member.status.ADMINISTRATOR\<close>, whose evaluation may raise.
\<close>

record chat_member =
  getattr_perm :: "string \<Rightarrow> bool"
  status_ADMINISTRATOR :: "py_error + bool"

datatype gate_text =
    GroupOnly
  | MissingRights "string list"
  | NeedAdmin
  | ErrorChecking py_error

text \<open>
  What the wrapper does: an edit of the triggering message, an exception that leaves
  the wrapper, or an action of the wrapped handler.
\<close>

datatype 'a gate_action = GateEdit gate_text | GateRaise py_error | Handler 'a

text \<open>
  The loop over \<open>permissions\<close> that collects \<open>missing_perms\<close>.  The names are kept as
  they are passed, \<open>admin\<close> becoming \<open>Administrator\<close>; their capitalisation for display
  is left out.
\<close>

fun missing_perms :: "chat_member \<Rightarrow> string list \<Rightarrow> py_error + string list" where
  "missing_perms me_member [] = Inr []"
| "missing_perms me_member (perm # perms) =
     (let rest = missing_perms me_member perms;
          other = (if \<not> getattr_perm me_member perm
                   then (case rest of Inl e \<Rightarrow> Inl e | Inr ps \<Rightarrow> Inr (perm # ps))
                   else rest)
      in if perm = ''admin'' then
           (case status_ADMINISTRATOR me_member of
              Inl e \<Rightarrow> Inl e
            | Inr is_admin \<Rightarrow>
                if \<not> is_admin
                then (case rest of Inl e \<Rightarrow> Inl e | Inr ps \<Rightarrow> Inr (''Administrator'' # ps))
                else other)
         else other)"

text \<open>
  The wrapper.  \<open>func\<close> is the wrapped handler, which maps the message and the state of
  the process to its actions and the new state; \<open>member\<close> is the outcome of
  \<open>client.get_chat_member\<close>.  The log lines of two failure paths read
  \<open>message.command[0]\<close>, which raises \<open>IndexError\<close> for a message without command
  tokens: inside the \<open>try\<close> it is caught and reported by one more edit, inside the
  \<open>except ChatAdminRequired\<close> clause it leaves the wrapper.
\<close>

definition require_admin_rights ::
  "string list \<Rightarrow> (message \<Rightarrow> 's \<Rightarrow> 'a list \<times> 's) \<Rightarrow> py_error + chat_member \<Rightarrow>
   message \<Rightarrow> 's \<Rightarrow> 'a gate_action list \<times> 's" where
  "require_admin_rights permissions func member m s =
     (if chat_type m \<noteq> ''group'' \<and> chat_type m \<noteq> ''supergroup''
      then ([GateEdit GroupOnly], s)
      else
        (case member of
           Inl ChatAdminRequired \<Rightarrow>
             (if command m = [] then [GateEdit NeedAdmin, GateRaise IndexError]
              else [GateEdit NeedAdmin], s)
         | Inl e \<Rightarrow> ([GateEdit (ErrorChecking e)], s)
         | Inr me_member \<Rightarrow>
             (case missing_perms me_member permissions of
                Inl e \<Rightarrow> ([GateEdit (ErrorChecking e)], s)
              | Inr [] \<Rightarrow> (map Handler (fst (func m s)), snd (func m s))
              | Inr (p # ps) \<Rightarrow>
                  (if command m = []
                   then [GateEdit (MissingRights (p # ps)), GateEdit (ErrorChecking IndexError)]
                   else [GateEdit (MissingRights (p # ps))], s))))"

text \<open>The gate lets a message through: a group chat, and no capability missing.\<close>

definition gate_passes :: "string list \<Rightarrow> py_error + chat_member \<Rightarrow> message \<Rightarrow> bool" where
  "gate_passes permissions member m \<longleftrightarrow>
     (chat_type m = ''group'' \<or> chat_type m = ''supergroup'') \<and>
     (case member of
        Inl e \<Rightarrow> False
      | Inr me_member \<Rightarrow> missing_perms me_member permissions = Inr [])"

text \<open>Sample data: a command message in a supergroup and two membership records.\<close>

definition purge_message :: message where
  "purge_message =
     \<lparr>message_id = 50, chat_id = - 100, chat_type = ''supergroup'',
      command = [''purge'', ''3''],
      from_user = Some \<lparr>user_id = 1, is_bot = False, is_self = True\<rparr>,
      reply_to_message =
        Some \<lparr>replied_id = 40, replied_from_user = None, replied_text = None\<rparr>,
      mentioned = False, outgoing = True, sender_chat = None\<rparr>"

definition member_with :: "string list \<Rightarrow> chat_member" where
  "member_with ps = \<lparr>getattr_perm = (\<lambda>p. p \<in> set ps), status_ADMINISTRATOR = Inr True\<rparr>"

section \<open>The warning system (\<open>warn\<close> and \<open>unwarn\<close>, self2.py)\<close>

text \<open>
  A row of the \<open>Warning\<close> table; the table is the list of its rows.  The time stamp
  is \<open>datetime.utcnow()\<close> at the insertion, in microseconds.
\<close>

record warning =
  warning_id :: nat
  warned_user_id :: int
  warned_chat_id :: int
  admin_id :: int
  warning_reason :: string
  timestamp :: int

datatype warn_text =
    PleaseReplyToUserW
  | CannotWarnMyself
  | UserWarned string nat
  | ErrorWarning py_error
  | OneWarningRemoved nat
  | NoWarnings
  | ErrorRemoving py_error

text \<open>
  \<open>select(Warning).where(user_id == u, chat_id == c)\<close>, and the same query with
  \<open>order_by(Warning.timestamp.desc())\<close>.  Rows with equal time stamps come in the
  order the database chooses; here it is the reverse of the stable ascending sort.
\<close>

definition warnings_of :: "int \<Rightarrow> int \<Rightarrow> warning list \<Rightarrow> warning list" where
  "warnings_of u c db = filter (\<lambda>w. warned_user_id w = u \<and> warned_chat_id w = c) db"

definition warnings_desc :: "int \<Rightarrow> int \<Rightarrow> warning list \<Rightarrow> warning list" where
  "warnings_desc u c db = rev (sort_key timestamp (warnings_of u c db))"

text \<open>The key that the database gives to a new row.\<close>

definition next_id :: "warning list \<Rightarrow> nat" where
  "next_id db = Suc (fold max (map warning_id db) 0)"

text \<open>
  What the two handlers do: an edit of the command message, or an exception that
  leaves the handler.
\<close>

datatype warn_action = EditWarn warn_text | RaiseWarn py_error

text \<open>
  The body of \<open>warn_command_handler\<close>: its actions and the table.  The first statement
  logs \<open>message.from_user.id\<close> and raises \<open>AttributeError\<close> for a message without
  sender; an exception of the argument resolver leaves the handler as well.
  \<open>user_info\<close> is the transport's lookup of the first name for the mention, made
  after the commit.
\<close>

definition warn_command_body ::
  "int \<Rightarrow> int \<Rightarrow> (string \<Rightarrow> py_error + int) \<Rightarrow> (int \<Rightarrow> py_error + string) \<Rightarrow> message \<Rightarrow>
   warning list \<Rightarrow> warn_action list \<times> warning list" where
  "warn_command_body me now get_users user_info m db =
     (case from_user m of
        None \<Rightarrow> ([RaiseWarn AttributeError], db)
      | Some u \<Rightarrow>
          (case get_target_user_id get_users m of
             Inl e \<Rightarrow> ([RaiseWarn e], db)
           | Inr None \<Rightarrow> ([EditWarn PleaseReplyToUserW], db)
           | Inr (Some target_user_id) \<Rightarrow>
               if target_user_id = 0 then ([EditWarn PleaseReplyToUserW], db)
               else if target_user_id = me then ([EditWarn CannotWarnMyself], db)
               else
                 let r = (case extract_arg m of
                            None \<Rightarrow> ''No reason specified.''
                          | Some a \<Rightarrow> if a = [] then ''No reason specified.'' else a);
                     new_warning =
                       \<lparr>warning_id = next_id db, warned_user_id = target_user_id,
                        warned_chat_id = chat_id m, admin_id = user_id u,
                        warning_reason = r, timestamp = now\<rparr>;
                     db' = db @ [new_warning];
                     user_warnings = warnings_of target_user_id (chat_id m) db'
                 in (case user_info target_user_id of
                       Inl e \<Rightarrow> ([EditWarn (ErrorWarning e)], db')
                     | Inr first_name \<Rightarrow>
                         ([EditWarn (UserWarned r (length user_warnings))], db'))))"

text \<open>
  The body of \<open>unwarn_command_handler\<close>: after the same first statement,
  \<open>warnings[-1]\<close> of the descending list is deleted, by its key, and the deletion is
  committed before the mention is looked up.
\<close>

definition unwarn_command_body ::
  "(string \<Rightarrow> py_error + int) \<Rightarrow> (int \<Rightarrow> py_error + string) \<Rightarrow> message \<Rightarrow>
   warning list \<Rightarrow> warn_action list \<times> warning list" where
  "unwarn_command_body get_users user_info m db =
     (if from_user m = None then ([RaiseWarn AttributeError], db)
      else
        (case get_target_user_id get_users m of
           Inl e \<Rightarrow> ([RaiseWarn e], db)
         | Inr None \<Rightarrow> ([EditWarn PleaseReplyToUserW], db)
         | Inr (Some target_user_id) \<Rightarrow>
             if target_user_id = 0 then ([EditWarn PleaseReplyToUserW], db)
             else
               let warnings = warnings_desc target_user_id (chat_id m) db in
               if warnings \<noteq> [] then
                 let oldest_warning = last warnings;
                     db' = filter (\<lambda>w. warning_id w \<noteq> warning_id oldest_warning) db;
                     remaining_warnings = length warnings - 1
                 in (case user_info target_user_id of
                       Inl e \<Rightarrow> ([EditWarn (ErrorRemoving e)], db')
                     | Inr first_name \<Rightarrow>
                         ([EditWarn (OneWarningRemoved remaining_warnings)], db'))
               else ([EditWarn NoWarnings], db)))"

text \<open>
  The handlers as they are registered: both bodies are wrapped by
  \<open>require_admin_rights(['can_restrict_members'])\<close>.  \<open>member\<close> is the outcome of the
  gate's membership query.
\<close>

definition warn_command_handler ::
  "int \<Rightarrow> int \<Rightarrow> (string \<Rightarrow> py_error + int) \<Rightarrow> (int \<Rightarrow> py_error + string) \<Rightarrow>
   py_error + chat_member \<Rightarrow> message \<Rightarrow> warning list \<Rightarrow>
   warn_action gate_action list \<times> warning list" where
  "warn_command_handler me now get_users user_info member m db =
     require_admin_rights [''can_restrict_members'']
       (warn_command_body me now get_users user_info) member m db"

definition unwarn_command_handler ::
  "(string \<Rightarrow> py_error + int) \<Rightarrow> (int \<Rightarrow> py_error + string) \<Rightarrow>
   py_error + chat_member \<Rightarrow> message \<Rightarrow> warning list \<Rightarrow>
   warn_action gate_action list \<times> warning list" where
  "unwarn_command_handler get_users user_info member m db =
     require_admin_rights [''can_restrict_members'']
       (unwarn_command_body get_users user_info) member m db"

text \<open>Sample data: the \<open>.unwarn\<close> command for user 12345 in chat -100, and three rows.\<close>

definition unwarn_message :: message where
  "unwarn_message =
     \<lparr>message_id = 60, chat_id = - 100, chat_type = ''supergroup'',
      command = [''unwarn'', ''12345''],
      from_user = Some \<lparr>user_id = 1, is_bot = False, is_self = True\<rparr>,
      reply_to_message = None, mentioned = False, outgoing = True, sender_chat = None\<rparr>"

definition warning_row :: "nat \<Rightarrow> int \<Rightarrow> int \<Rightarrow> warning" where
  "warning_row k u t =
     \<lparr>warning_id = k, warned_user_id = u, warned_chat_id = - 100, admin_id = 1,
      warning_reason = ''spam'', timestamp = t\<rparr>"

section \<open>The calculator (\<open>calc\<close>)\<close>

text \<open>
  The sanitiser: \<open>re.sub(r'[^0-9+\-*/().\s]', '', expression)\<close> in self2.py and
  \<open>re.sub(r'[^-+*/().\d\s]', '', expression)\<close> in self.py.  On ASCII text the two
  classes are the same: \<open>\s\<close> is the blank, the control characters 9 to 13 and 28 to
  31.  Every character that the negated class matches is replaced by nothing.
\<close>

definition is_space :: "char \<Rightarrow> bool" where
  "is_space c \<longleftrightarrow>
     c = CHR '' '' \<or> (9 \<le> (of_char c :: nat) \<and> (of_char c :: nat) \<le> 13) \<or>
     (28 \<le> (of_char c :: nat) \<and> (of_char c :: nat) \<le> 31)"

definition calc_allowed :: "char \<Rightarrow> bool" where
  "calc_allowed c \<longleftrightarrow> is_digit c \<or> c \<in> set ''+-*/().'' \<or> is_space c"

fun sanitize :: "string \<Rightarrow> string" where
  "sanitize [] = []"
| "sanitize (c # cs) = (if calc_allowed c then c # sanitize cs else sanitize cs)"

text \<open>
  \<open>eval\<close> on a sanitised expression, for integer arithmetic: decimal literals, binary
  \<open>+\<close>, \<open>-\<close>, \<open>*\<close>, unary sign, parentheses and blanks.  Division, the decimal point
  (both lead to floating point), the power operator, calls and white space other than
  the blank are not modelled: the result is \<open>NotModelled\<close>.
\<close>

datatype token = TNum string | TPlus | TMinus | TStar | TLParen | TRParen | TUnsupported

datatype eval_result = Value int | Raises py_error | NotModelled

definition flush :: "string \<Rightarrow> token list" where
  "flush ds = (if ds = [] then [] else [TNum ds])"

definition token_of :: "char \<Rightarrow> token list" where
  "token_of c =
     (if c = CHR '' '' then []
      else if c = CHR ''+'' then [TPlus]
      else if c = CHR ''-'' then [TMinus]
      else if c = CHR ''*'' then [TStar]
      else if c = CHR ''('' then [TLParen]
      else if c = CHR '')'' then [TRParen]
      else [TUnsupported])"

fun lex :: "string \<Rightarrow> string \<Rightarrow> token list" where
  "lex ds [] = flush ds"
| "lex ds (c # cs) =
     (if is_digit c then lex (ds @ [c]) cs else flush ds @ token_of c @ lex [] cs)"

text \<open>A literal with a leading zero is a syntax error unless it is all zeros.\<close>

definition literal_ok :: "string \<Rightarrow> bool" where
  "literal_ok ds \<longleftrightarrow> length ds \<le> 1 \<or> hd ds \<noteq> CHR ''0'' \<or> (\<forall>d \<in> set ds. d = CHR ''0'')"

text \<open>
  Evaluation with a stack of values and a stack of pending operators.  Operators on the
  stack: binary \<open>+\<close>, \<open>-\<close>, \<open>*\<close>, the unary signs and the open parenthesis.
\<close>

datatype pending = PAdd | PSub | PMul | PNeg | PPos | PParen

definition prec :: "pending \<Rightarrow> nat" where
  "prec p = (case p of PAdd \<Rightarrow> 1 | PSub \<Rightarrow> 1 | PMul \<Rightarrow> 2 | PNeg \<Rightarrow> 3 | PPos \<Rightarrow> 3 | PParen \<Rightarrow> 0)"

fun apply_op :: "pending \<Rightarrow> int list \<Rightarrow> int list option" where
  "apply_op PAdd (b # a # vs) = Some ((a + b) # vs)"
| "apply_op PSub (b # a # vs) = Some ((a - b) # vs)"
| "apply_op PMul (b # a # vs) = Some ((a * b) # vs)"
| "apply_op PNeg (a # vs) = Some ((- a) # vs)"
| "apply_op PPos (a # vs) = Some (a # vs)"
| "apply_op p vs = None"

text \<open>Apply the pending operators that bind at least as tightly as \<open>k\<close>.\<close>

fun reduce :: "nat \<Rightarrow> int list \<Rightarrow> pending list \<Rightarrow> (int list \<times> pending list) option" where
  "reduce k vs [] = Some (vs, [])"
| "reduce k vs (p # ps) =
     (if p \<noteq> PParen \<and> k \<le> prec p
      then (case apply_op p vs of None \<Rightarrow> None | Some vs' \<Rightarrow> reduce k vs' ps)
      else Some (vs, p # ps))"

fun run_tokens :: "bool \<Rightarrow> int list \<Rightarrow> pending list \<Rightarrow> token list \<Rightarrow> eval_result" where
  "run_tokens operand vs ps [] =
     (if operand then Raises SyntaxError
      else (case reduce 1 vs ps of
              Some ([v], []) \<Rightarrow> Value v
            | _ \<Rightarrow> Raises SyntaxError))"
| "run_tokens operand vs ps (t # ts) =
     (if operand then
        (case t of
           TNum ds \<Rightarrow>
             if literal_ok ds then run_tokens False (int (int_of_digits ds) # vs) ps ts
             else Raises SyntaxError
         | TPlus \<Rightarrow> run_tokens True vs (PPos # ps) ts
         | TMinus \<Rightarrow> run_tokens True vs (PNeg # ps) ts
         | TLParen \<Rightarrow> run_tokens True vs (PParen # ps) ts
         | TRParen \<Rightarrow> if ps \<noteq> [] \<and> hd ps = PParen \<and> vs = [] then NotModelled
                        else Raises SyntaxError
         | _ \<Rightarrow> NotModelled)
      else
        (case t of
           TPlus \<Rightarrow>
             (case reduce 1 vs ps of
                Some (vs', ps') \<Rightarrow> run_tokens True vs' (PAdd # ps') ts
              | None \<Rightarrow> Raises SyntaxError)
         | TMinus \<Rightarrow>
             (case reduce 1 vs ps of
                Some (vs', ps') \<Rightarrow> run_tokens True vs' (PSub # ps') ts
              | None \<Rightarrow> Raises SyntaxError)
         | TStar \<Rightarrow>
             (case reduce 2 vs ps of
                Some (vs', ps') \<Rightarrow> run_tokens True vs' (PMul # ps') ts
              | None \<Rightarrow> Raises SyntaxError)
         | TRParen \<Rightarrow>
             (case reduce 1 vs ps of
                Some (vs', PParen # ps') \<Rightarrow> run_tokens False vs' ps' ts
              | _ \<Rightarrow> Raises SyntaxError)
         | TNum ds \<Rightarrow> Raises SyntaxError
         | _ \<Rightarrow> NotModelled))"

definition py_eval :: "string \<Rightarrow> eval_result" where
  "py_eval src =
     (let ts = lex [] src in
      if TUnsupported \<in> set ts then NotModelled else run_tokens True [] [] ts)"

text \<open>\<open>str\<close> of an integer.\<close>

function str_nat :: "nat \<Rightarrow> string" where
  "str_nat n =
     (if n < 10 then [''0123456789'' ! n] else str_nat (n div 10) @ [''0123456789'' ! (n mod 10)])"
  by pat_completeness auto
termination
  by (relation "measure id") auto

definition str_int :: "int \<Rightarrow> string" where
  "str_int i = (if i < 0 then CHR ''-'' # str_nat (nat (- i)) else str_nat (nat i))"

text \<open>
  \<open>calc_command_handler\<close> of self2.py: the edit of the command message, or \<open>None\<close>
  where the evaluation is not modelled.  The result line shows the expression as it
  was typed.
\<close>

datatype calc_text =
    PleaseProvideExpression
  | InvalidExpression
  | Result string string
  | SyntaxErrorText
  | DivisionByZeroText
  | ErrorInCalculation py_error

definition calc_command_handler :: "message \<Rightarrow> calc_text option" where
  "calc_command_handler m =
     (case extract_arg m of
        None \<Rightarrow> Some PleaseProvideExpression
      | Some expression \<Rightarrow>
          if expression = [] then Some PleaseProvideExpression
          else
            let sanitized_expression = sanitize expression in
            if sanitized_expression = [] then Some InvalidExpression
            else
              (case py_eval sanitized_expression of
                 Value v \<Rightarrow> Some (Result expression (str_int v))
               | Raises SyntaxError \<Rightarrow> Some SyntaxErrorText
               | Raises ZeroDivisionError \<Rightarrow> Some DivisionByZeroText
               | Raises e \<Rightarrow> Some (ErrorInCalculation e)
               | NotModelled \<Rightarrow> None))"

text \<open>
  \<open>calc_command_handler\<close> of self.py: no check for an empty expression, one
  \<open>except\<close> clause, and the result line shows the sanitised expression.
\<close>

definition calc_command_handler_self :: "message \<Rightarrow> calc_text option" where
  "calc_command_handler_self m =
     (case extract_arg m of
        None \<Rightarrow> Some PleaseProvideExpression
      | Some expression \<Rightarrow>
          if expression = [] then Some PleaseProvideExpression
          else
            let expression' = sanitize expression in
            (case py_eval expression' of
               Value v \<Rightarrow> Some (Result expression' (str_int v))
             | Raises e \<Rightarrow> Some (ErrorInCalculation e)
             | NotModelled \<Rightarrow> None))"

definition calc_message :: "string list \<Rightarrow> message" where
  "calc_message args =
     \<lparr>message_id = 70, chat_id = 1, chat_type = ''private'', command = ''calc'' # args,
      from_user = Some \<lparr>user_id = 1, is_bot = False, is_self = True\<rparr>,
      reply_to_message = None, mentioned = False, outgoing = True, sender_chat = None\<rparr>"

section \<open>The purge command\<close>




text \<open>
  The first \<open>try\<close> block of both handlers: \<open>count\<close> is 1 without an argument,
  otherwise \<open>int(count_str)\<close>, and a count that is not positive raises the same
  \<open>ValueError\<close> as a text that is not a number.
\<close>

definition purge_count :: "message \<Rightarrow> py_error + int" where
  "purge_count m =
     (case extract_arg m of
        None \<Rightarrow> Inr 1
      | Some count_str \<Rightarrow>
          if count_str = [] then Inr 1
          else (case py_int count_str of
                  Inl e \<Rightarrow> Inl e
                | Inr n \<Rightarrow> if n \<le> 0 then Inl ValueError else Inr n))"










section \<open>Deferred delivery (\<open>scheduled_message_task\<close> and \<open>reminder_task\<close>, self2.py)\<close>

text \<open>
  The rows of the \<open>ScheduledMessage\<close> and \<open>Reminder\<close> tables.  Times are seconds.
\<close>

record scheduled_message =
  scheduled_id :: nat
  scheduled_chat_id :: int
  send_time :: int
  message_text :: string
  is_sent :: bool

record reminder =
  reminder_id :: nat
  reminder_chat_id :: int
  reminder_message_id :: int
  remind_time :: int
  reminder_text :: string
  is_active :: bool

text \<open>
  The transport: the outcome of \<open>app.send_message\<close> for an item in the poll cycle that
  runs at a given time, \<open>None\<close> for a delivered message.  The flag tells whether the
  message is sent as a reply to the original message.  A delivery attempt is recorded
  with the item and its outcome.
\<close>

type_synonym transport = "int \<Rightarrow> nat \<Rightarrow> bool \<Rightarrow> py_error option"

type_synonym attempt = "nat \<times> py_error option"

text \<open>
  One pass of the \<open>for msg in due_messages\<close> loop.  \<open>marked\<close> holds the keys of the
  rows whose flag has been set in the session.  A failure other than \<open>Forbidden\<close> is
  logged, with \<open>msg.chat_id\<close>, and the loop goes on.
\<close>

fun scheduled_loop ::
  "transport \<Rightarrow> int \<Rightarrow> scheduled_message list \<Rightarrow> nat list \<Rightarrow> attempt list \<Rightarrow>
   nat list \<times> attempt list" where
  "scheduled_loop send now [] marked tried = (marked, tried)"
| "scheduled_loop send now (msg # due) marked tried =
     (case send now (scheduled_id msg) False of
        None \<Rightarrow>
          scheduled_loop send now due (marked @ [scheduled_id msg])
            (tried @ [(scheduled_id msg, None)])
      | Some Forbidden \<Rightarrow>
          scheduled_loop send now due (marked @ [scheduled_id msg])
            (tried @ [(scheduled_id msg, Some Forbidden)])
      | Some e \<Rightarrow> scheduled_loop send now due marked (tried @ [(scheduled_id msg, Some e)]))"

text \<open>
  One iteration of \<open>scheduled_message_task\<close>, run at time \<open>now\<close>: the due rows are
  selected, the loop runs, and \<open>session.commit()\<close> writes the flags.
\<close>

definition scheduled_message_cycle ::
  "transport \<Rightarrow> int \<Rightarrow> scheduled_message list \<Rightarrow> scheduled_message list \<times> attempt list" where
  "scheduled_message_cycle send now db =
     (let due_messages = filter (\<lambda>msg. \<not> is_sent msg \<and> send_time msg \<le> now) db;
          r = scheduled_loop send now due_messages [] []
      in (map (\<lambda>msg. if scheduled_id msg \<in> set (fst r) then msg\<lparr>is_sent := True\<rparr> else msg) db,
          snd r))"

text \<open>
  The delivery of one reminder: as a reply to the original message when
  \<open>rem.message_id\<close> is not zero, and once more without the reply when the original
  message is gone (\<open>MessageIdInvalid\<close>).
\<close>

definition send_reminder :: "transport \<Rightarrow> int \<Rightarrow> reminder \<Rightarrow> py_error option" where
  "send_reminder send now rem =
     (if reminder_message_id rem \<noteq> 0 then
        (case send now (reminder_id rem) True of
           Some MessageIdInvalid \<Rightarrow> send now (reminder_id rem) False
         | outcome \<Rightarrow> outcome)
      else send now (reminder_id rem) False)"

text \<open>
  One pass of the \<open>for rem in due_reminders\<close> loop.  The last \<open>except\<close> clause formats
  its log line with \<open>rem.chat.id\<close>; a \<open>Reminder\<close> has \<open>chat_id\<close> but no \<open>chat\<close>, so
  the clause itself raises \<open>AttributeError\<close>, which ends the loop: the result is
  \<open>None\<close> for the marks, and the attempts made so far.
\<close>

fun reminder_loop ::
  "transport \<Rightarrow> int \<Rightarrow> reminder list \<Rightarrow> nat list \<Rightarrow> attempt list \<Rightarrow>
   nat list option \<times> attempt list" where
  "reminder_loop send now [] marked tried = (Some marked, tried)"
| "reminder_loop send now (rem # due) marked tried =
     (case send_reminder send now rem of
        None \<Rightarrow>
          reminder_loop send now due (marked @ [reminder_id rem])
            (tried @ [(reminder_id rem, None)])
      | Some Forbidden \<Rightarrow>
          reminder_loop send now due (marked @ [reminder_id rem])
            (tried @ [(reminder_id rem, Some Forbidden)])
      | Some e \<Rightarrow> (None, tried @ [(reminder_id rem, Some e)]))"

text \<open>
  One iteration of \<open>reminder_task\<close>.  When the loop is left by the exception, the
  outer \<open>except\<close> clause logs it, \<open>session.commit()\<close> is skipped and the session is
  closed: the table stays as it was.
\<close>

definition reminder_cycle ::
  "transport \<Rightarrow> int \<Rightarrow> reminder list \<Rightarrow> reminder list \<times> attempt list" where
  "reminder_cycle send now db =
     (let due_reminders = filter (\<lambda>rem. is_active rem \<and> remind_time rem \<le> now) db;
          r = reminder_loop send now due_reminders [] []
      in (case fst r of
            None \<Rightarrow> db
          | Some marked \<Rightarrow>
              map (\<lambda>rem. if reminder_id rem \<in> set marked then rem\<lparr>is_active := False\<rparr>
                          else rem) db,
          snd r))"

text \<open>The polling loops over the clock readings of their iterations: all attempts, in order.\<close>

fun scheduled_message_task ::
  "transport \<Rightarrow> int list \<Rightarrow> scheduled_message list \<Rightarrow> attempt list" where
  "scheduled_message_task send [] db = []"
| "scheduled_message_task send (now # ticks) db =
     snd (scheduled_message_cycle send now db) @
     scheduled_message_task send ticks (fst (scheduled_message_cycle send now db))"

fun reminder_task :: "transport \<Rightarrow> int list \<Rightarrow> reminder list \<Rightarrow> attempt list" where
  "reminder_task send [] db = []"
| "reminder_task send (now # ticks) db =
     snd (reminder_cycle send now db) @
     reminder_task send ticks (fst (reminder_cycle send now db))"

text \<open>How often an item was delivered.\<close>

definition deliveries :: "nat \<Rightarrow> attempt list \<Rightarrow> nat" where
  "deliveries k tried = length (filter (\<lambda>a. a = (k, None)) tried)"

text \<open>
  Sample data: two due items, and a transport that delivers item 1 and fails with a
  transient error on item 2.
\<close>

definition two_reminders :: "reminder list" where
  "two_reminders =
     [\<lparr>reminder_id = 1, reminder_chat_id = 10, reminder_message_id = 5, remind_time = 90,
       reminder_text = ''tea'', is_active = True\<rparr>,
      \<lparr>reminder_id = 2, reminder_chat_id = 20, reminder_message_id = 6, remind_time = 95,
       reminder_text = ''call'', is_active = True\<rparr>]"

definition two_scheduled :: "scheduled_message list" where
  "two_scheduled =
     [\<lparr>scheduled_id = 1, scheduled_chat_id = 10, send_time = 90, message_text = ''tea'',
       is_sent = False\<rparr>,
      \<lparr>scheduled_id = 2, scheduled_chat_id = 20, send_time = 95, message_text = ''call'',
       is_sent = False\<rparr>]"

definition second_fails :: transport where
  "second_fails now k threaded = (if k = 2 then Some OtherError else None)"

text \<open>
  Notions for the proofs: the send of a scheduled message is settled when it succeeds
  or fails with \<open>Forbidden\<close>; \<open>marked_ids\<close> are the keys of the due rows whose send is
  settled in a cycle; \<open>sent_in\<close> says that the row with a key has its flag set.
\<close>

definition settled :: "transport \<Rightarrow> int \<Rightarrow> scheduled_message \<Rightarrow> bool" where
  "settled send now msg \<longleftrightarrow>
     send now (scheduled_id msg) False = None \<or>
     send now (scheduled_id msg) False = Some Forbidden"

definition marked_ids :: "transport \<Rightarrow> int \<Rightarrow> scheduled_message list \<Rightarrow> nat set" where
  "marked_ids send now db =
     scheduled_id ` {d \<in> set db. \<not> is_sent d \<and> send_time d \<le> now \<and> settled send now d}"

definition sent_in :: "nat \<Rightarrow> scheduled_message list \<Rightarrow> bool" where
  "sent_in k db \<longleftrightarrow> (\<exists>msg \<in> set db. scheduled_id msg = k \<and> is_sent msg)"

section \<open>Base64 (\<open>base64e\<close> and \<open>base64d\<close>, self2.py)\<close>

text \<open>
  Text is Unicode here: a list of code points.  Bytes are \<open>char\<close>s.  \<open>scalar\<close> holds
  for the code points of Unicode text: below \<open>0x110000\<close> and no surrogate.
\<close>

definition scalar :: "nat \<Rightarrow> bool" where
  "scalar cp \<longleftrightarrow> cp < 55296 \<or> (57343 < cp \<and> cp < 1114112)"

definition unicode_text :: "nat list \<Rightarrow> bool" where
  "unicode_text s = list_all scalar s"

text \<open>\<open>str.encode('utf-8')\<close>: a surrogate cannot be encoded.\<close>

definition encode_char :: "nat \<Rightarrow> py_error + string" where
  "encode_char cp =
     (if cp < 128 then Inr [char_of cp]
      else if cp < 2048 then Inr [char_of (192 + cp div 64), char_of (128 + cp mod 64)]
      else if cp < 65536 then
        (if 55296 \<le> cp \<and> cp \<le> 57343 then Inl UnicodeEncodeError
         else Inr [char_of (224 + cp div 4096), char_of (128 + cp div 64 mod 64),
                   char_of (128 + cp mod 64)])
      else if cp < 1114112 then
        Inr [char_of (240 + cp div 262144), char_of (128 + cp div 4096 mod 64),
             char_of (128 + cp div 64 mod 64), char_of (128 + cp mod 64)]
      else Inl UnicodeEncodeError)"

fun utf8_encode :: "nat list \<Rightarrow> py_error + string" where
  "utf8_encode [] = Inr []"
| "utf8_encode (cp # s) =
     (case encode_char cp of
        Inl e \<Rightarrow> Inl e
      | Inr bs \<Rightarrow> (case utf8_encode s of Inl e \<Rightarrow> Inl e | Inr rest \<Rightarrow> Inr (bs @ rest)))"

text \<open>
  \<open>bytes.decode('utf-8')\<close>, strict: a wrong lead or continuation byte, a truncated
  sequence, an overlong form, a surrogate or a value from \<open>0x110000\<close> on raises
  \<open>UnicodeDecodeError\<close>.
\<close>

definition continuation :: "char \<Rightarrow> bool" where
  "continuation b \<longleftrightarrow> 128 \<le> (of_char b :: nat) \<and> (of_char b :: nat) < 192"

definition low6 :: "char \<Rightarrow> nat" where
  "low6 b = of_char b - 128"

definition prepend :: "nat \<Rightarrow> py_error + nat list \<Rightarrow> py_error + nat list" where
  "prepend cp r = (case r of Inl e \<Rightarrow> Inl e | Inr s \<Rightarrow> Inr (cp # s))"

fun utf8_decode :: "string \<Rightarrow> py_error + nat list" where
  "utf8_decode [] = Inr []"
| "utf8_decode (b0 # bs) =
     (let n = (of_char b0 :: nat) in
      if n < 128 then prepend n (utf8_decode bs)
      else if n < 192 then Inl UnicodeDecodeError
      else if n < 224 then
        (case bs of
           b1 # rest \<Rightarrow>
             let cp = (n - 192) * 64 + low6 b1 in
             if continuation b1 \<and> 128 \<le> cp then prepend cp (utf8_decode rest)
             else Inl UnicodeDecodeError
         | _ \<Rightarrow> Inl UnicodeDecodeError)
      else if n < 240 then
        (case bs of
           b1 # b2 # rest \<Rightarrow>
             let cp = (n - 224) * 4096 + low6 b1 * 64 + low6 b2 in
             if continuation b1 \<and> continuation b2 \<and> 2048 \<le> cp \<and>
                \<not> (55296 \<le> cp \<and> cp \<le> 57343)
             then prepend cp (utf8_decode rest)
             else Inl UnicodeDecodeError
         | _ \<Rightarrow> Inl UnicodeDecodeError)
      else if n < 248 then
        (case bs of
           b1 # b2 # b3 # rest \<Rightarrow>
             let cp = (n - 240) * 262144 + low6 b1 * 4096 + low6 b2 * 64 + low6 b3 in
             if continuation b1 \<and> continuation b2 \<and> continuation b3 \<and>
                65536 \<le> cp \<and> cp < 1114112
             then prepend cp (utf8_decode rest)
             else Inl UnicodeDecodeError
         | _ \<Rightarrow> Inl UnicodeDecodeError)
      else Inl UnicodeDecodeError)"

text \<open>\<open>base64.b64encode\<close>: three bytes become four characters of the alphabet.\<close>

definition b64_alphabet :: string where
  "b64_alphabet = ''ABCDEFGHIJKLMNOPQRSTUVWXYZabcdefghijklmnopqrstuvwxyz0123456789+/''"

definition b64_char :: "nat \<Rightarrow> char" where
  "b64_char n = b64_alphabet ! n"

fun b64encode :: "string \<Rightarrow> string" where
  "b64encode [] = []"
| "b64encode [x] =
     (let a = (of_char x :: nat) in
      [b64_char (a div 4), b64_char (a mod 4 * 16), CHR ''='', CHR ''=''])"
| "b64encode [x, y] =
     (let a = (of_char x :: nat); b = (of_char y :: nat) in
      [b64_char (a div 4), b64_char (a mod 4 * 16 + b div 16), b64_char (b mod 16 * 4),
       CHR ''=''])"
| "b64encode (x # y # z # rest) =
     (let a = (of_char x :: nat); b = (of_char y :: nat); c = (of_char z :: nat) in
      [b64_char (a div 4), b64_char (a mod 4 * 16 + b div 16),
       b64_char (b mod 16 * 4 + c div 64), b64_char (c mod 64)] @ b64encode rest)"

text \<open>
  \<open>base64.b64decode\<close> without validation, as \<open>binascii.a2b_base64\<close> works: characters
  outside the alphabet are skipped; a pad that completes a quad ends the decoding; input
  that ends inside a quad raises \<open>binascii.Error\<close>.  The state is the position in the
  quad, the bits left over, and the number of pads seen.
\<close>

fun index_of :: "'a list \<Rightarrow> 'a \<Rightarrow> nat option" where
  "index_of [] x = None"
| "index_of (y # ys) x = (if x = y then Some 0 else map_option Suc (index_of ys x))"

fun a2b_base64 :: "nat \<Rightarrow> nat \<Rightarrow> nat \<Rightarrow> string \<Rightarrow> string \<Rightarrow> py_error + string" where
  "a2b_base64 quad_pos leftchar pads out [] =
     (if quad_pos \<noteq> 0 then Inl BinasciiError else Inr out)"
| "a2b_base64 quad_pos leftchar pads out (ch # rest) =
     (if ch = CHR ''='' then
        (if 2 \<le> quad_pos then
           (if 4 \<le> quad_pos + (pads + 1) then Inr out
            else a2b_base64 quad_pos leftchar (pads + 1) out rest)
         else a2b_base64 quad_pos leftchar pads out rest)
      else
        (case index_of b64_alphabet ch of
           None \<Rightarrow> a2b_base64 quad_pos leftchar pads out rest
         | Some this_ch \<Rightarrow>
             if quad_pos = 0 then a2b_base64 1 this_ch 0 out rest
             else if quad_pos = 1 then
               a2b_base64 2 (this_ch mod 16) 0
                 (out @ [char_of (leftchar * 4 + this_ch div 16)]) rest
             else if quad_pos = 2 then
               a2b_base64 3 (this_ch mod 4) 0
                 (out @ [char_of (leftchar * 16 + this_ch div 4)]) rest
             else a2b_base64 0 0 0 (out @ [char_of (leftchar * 64 + this_ch)]) rest))"

definition b64decode :: "string \<Rightarrow> py_error + string" where
  "b64decode s = a2b_base64 0 0 0 [] s"

text \<open>
  The expressions in the \<open>try\<close> blocks of the two handlers:
  \<open>base64.b64encode(text.encode('utf-8')).decode('utf-8')\<close> and
  \<open>base64.b64decode(text.encode('utf-8')).decode('utf-8')\<close>.
\<close>

definition encoded_text :: "nat list \<Rightarrow> py_error + nat list" where
  "encoded_text s =
     (case utf8_encode s of Inl e \<Rightarrow> Inl e | Inr bs \<Rightarrow> utf8_decode (b64encode bs))"

definition decoded_text :: "nat list \<Rightarrow> py_error + nat list" where
  "decoded_text s =
     (case utf8_encode s of
        Inl e \<Rightarrow> Inl e
      | Inr bs \<Rightarrow> (case b64decode bs of Inl e \<Rightarrow> Inl e | Inr raw \<Rightarrow> utf8_decode raw))"

text \<open>
  The handlers.  \<open>sender_user\<close> is \<open>message.from_user\<close>, which the first statement
  reads (\<open>AttributeError\<close> when it is missing); \<open>tokens\<close> is \<open>message.command\<close>, the
  command name first, each token a Unicode text; \<open>reply_text\<close> is the text of the
  replied-to message, \<open>None\<close> when there is no such message or it has no text.
  \<open>extract_arg_text\<close> is \<open>extract_arg\<close> on Unicode tokens: the tokens after the first,
  joined by single blanks.  The text is the argument or, when that is absent or empty, the
  text of the replied-to message; with neither, the usage hint is shown.
\<close>

datatype base64_text =
    PleaseProvideText
  | Base64Encoded "nat list"
  | Base64Decoded "nat list"
  | ErrorBase64 py_error

fun join_blank :: "nat list list \<Rightarrow> nat list" where
  "join_blank [] = []"
| "join_blank [t] = t"
| "join_blank (t # ts) = t @ [32] @ join_blank ts"

definition extract_arg_text :: "nat list list \<Rightarrow> nat list option" where
  "extract_arg_text tokens =
     (if length tokens > 1 then Some (join_blank (tl tokens)) else None)"

definition text_or_reply :: "nat list option \<Rightarrow> nat list option \<Rightarrow> nat list option" where
  "text_or_reply arg reply_text =
     (if arg \<noteq> None \<and> arg \<noteq> Some [] then arg
      else if reply_text \<noteq> None \<and> reply_text \<noteq> Some [] then reply_text
      else None)"

definition base64_encode_handler ::
  "user option \<Rightarrow> nat list list \<Rightarrow> nat list option \<Rightarrow> py_error + base64_text" where
  "base64_encode_handler sender_user tokens reply_text =
     (if sender_user = None then Inl AttributeError
      else
        (case text_or_reply (extract_arg_text tokens) reply_text of
           None \<Rightarrow> Inr PleaseProvideText
         | Some s \<Rightarrow>
             (case encoded_text s of
                Inl e \<Rightarrow> Inr (ErrorBase64 e)
              | Inr t \<Rightarrow> Inr (Base64Encoded t))))"

definition base64_decode_handler ::
  "user option \<Rightarrow> nat list list \<Rightarrow> nat list option \<Rightarrow> py_error + base64_text" where
  "base64_decode_handler sender_user tokens reply_text =
     (if sender_user = None then Inl AttributeError
      else
        (case text_or_reply (extract_arg_text tokens) reply_text of
           None \<Rightarrow> Inr PleaseProvideText
         | Some s \<Rightarrow>
             (case decoded_text s of
                Inl e \<Rightarrow> Inr (ErrorBase64 e)
              | Inr t \<Rightarrow> Inr (Base64Decoded t))))"

text \<open>
  Sample data: the owner of the account, who sends the commands; the command names as
  token texts; and the usage hint of \<open>.base64e\<close> as the chat shows it.
\<close>

definition base64_sender :: user where
  "base64_sender = \<lparr>user_id = 1, is_bot = False, is_self = True\<rparr>"

definition base64e_name :: "nat list" where
  "base64e_name = map of_char ''base64e''"

definition base64d_name :: "nat list" where
  "base64d_name = map of_char ''base64d''"

definition usage_hint_shown :: "nat list" where
  "usage_hint_shown = map of_char ''Please provide text to encode.''"

section \<open>Proofs: duration parsing\<close>

lemmas duration_defs =
  parse_time_duration_def findall_def lower_def lower_char_def is_digit_def unit_letter_def
  unit_seconds_def int_of_digits_def digit_val_def timedelta_def





section \<open>Proofs: ban and mute durations\<close>

text \<open>
  Claim C5.  The grammar holds on \<open>parse_time_duration\<close>: \<open>"1h30m"\<close> is 5400 seconds,
  \<open>"2d"\<close> is 172800 seconds and \<open>"abc"\<close> gives no duration.  The ban and mute handlers
  do not reach it: on \<open>.ban 12345 abc def\<close> (and \<open>.mute 12345 abc def\<close>) the handler
  raises \<open>AttributeError\<close> before any transport call, where the claim has a permanent
  action with the reason \<open>"abc def"\<close>.
\<close>

theorem duration_grammar_and_restrict_handlers:
  "parse_time_duration ''1h30m'' = Inr (Some 5400) \<and>
   parse_time_duration ''2d'' = Inr (Some 172800) \<and>
   parse_time_duration ''abc'' = Inr None \<and>
   ban_command_handler 1 (\<lambda>name. Inl PeerIdInvalid) None
     \<lparr>message_id = 10, chat_id = - 100, chat_type = ''supergroup'',
      command = [''ban'', ''12345'', ''abc'', ''def''],
      from_user = Some \<lparr>user_id = 1, is_bot = False, is_self = True\<rparr>,
      reply_to_message = None, mentioned = False, outgoing = True,
      sender_chat = None\<rparr> = Inl AttributeError \<and>
   mute_command_handler 1 (\<lambda>name. Inl PeerIdInvalid) None
     \<lparr>message_id = 10, chat_id = - 100, chat_type = ''supergroup'',
      command = [''mute'', ''12345'', ''abc'', ''def''],
      from_user = Some \<lparr>user_id = 1, is_bot = False, is_self = True\<rparr>,
      reply_to_message = None, mentioned = False, outgoing = True,
      sender_chat = None\<rparr> = Inl AttributeError"
  by (simp add: duration_defs ban_command_handler_def mute_command_handler_def
      restrict_command_handler_def get_target_user_id_def py_int_def strip_def
      is_blank_def digits_ok_def)

section \<open>Proofs: the AFK listener\<close>


lemma listener_is_afk: "is_afk (fst (afk_listener me t m st)) = is_afk st"
  by (simp add: afk_listener_def afk_reply_handler_def Let_def split: option.splits)

lemma listener_reason: "reason (fst (afk_listener me t m st)) = reason st"
  and listener_start: "start_time (fst (afk_listener me t m st)) = start_time st"
  by (simp_all add: afk_listener_def afk_reply_handler_def Let_def split: option.splits)

lemma listener_inactive: "\<not> is_afk st \<Longrightarrow> afk_listener me t m st = (st, None)"
  by (simp add: afk_listener_def afk_reply_handler_def split: option.splits)

lemma listener_other:
  "sender m \<noteq> Some c \<Longrightarrow>
   last_afk_message_time (fst (afk_listener me t m st)) c = last_afk_message_time st c"
  by (auto simp: afk_listener_def afk_reply_handler_def sender_def Let_def split: option.splits)

lemma listener_cooldown:
  "last_afk_message_time st c = Some l \<Longrightarrow> t - l < AFK_MESSAGE_COOLDOWN \<Longrightarrow>
   sender m = Some c \<Longrightarrow> afk_listener me t m st = (st, None)"
  by (auto simp: afk_listener_def afk_reply_handler_def sender_def in_cooldown_def
      split: option.splits)

lemma qualifying_filter: "qualifying me c m \<Longrightarrow> afk_reply_filter m"
  by (auto simp: qualifying_def afk_reply_filter_def filters_me_def split: option.splits)

lemma qualifying_sender: "qualifying me c m \<Longrightarrow> sender m = Some c"
  by (auto simp: qualifying_def sender_def split: option.splits)

lemma listener_first:
  assumes "is_afk st" "qualifying me c m" "\<not> in_cooldown st c t"
  shows "\<exists>r. afk_listener me t m st =
           (st\<lparr>last_afk_message_time := (last_afk_message_time st)(c \<mapsto> t)\<rparr>, Some r)"
  using assms qualifying_filter [OF assms(2)]
  by (auto simp: afk_listener_def afk_reply_handler_def qualifying_def filters_private_def
      filters_group_def Let_def split: option.splits)

lemma suppressed:
  assumes "last_afk_message_time st c = Some l"
    and "\<forall>e\<in>set es. sender (snd e) = Some c \<longrightarrow> fst e - l < AFK_MESSAGE_COOLDOWN"
  shows "replies_to c (afk_replies me st es) = [] \<and>
         last_afk_message_time (afk_final me st es) c = Some l \<and>
         is_afk (afk_final me st es) = is_afk st"
  using assms
proof (induction es arbitrary: st)
  case Nil
  then show ?case by (simp add: replies_to_def)
next
  case (Cons e es)
  show ?case
  proof (cases "sender (snd e) = Some c")
    case True
    with Cons.prems have "afk_listener me (fst e) (snd e) st = (st, None)"
      by (auto intro: listener_cooldown)
    with Cons show ?thesis by simp
  next
    case False
    let ?st = "fst (afk_listener me (fst e) (snd e) st)"
    from False Cons.prems have "last_afk_message_time ?st c = Some l"
      by (simp add: listener_other)
    with Cons.IH [of ?st] Cons.prems(2)
    have "replies_to c (afk_replies me ?st es) = [] \<and>
          last_afk_message_time (afk_final me ?st es) c = Some l \<and>
          is_afk (afk_final me ?st es) = is_afk ?st"
      by simp
    with False show ?thesis
      by (simp add: replies_to_def listener_is_afk split: option.splits)
  qed
qed

lemma afk_replies_append:
  "afk_replies me st (xs @ ys) = afk_replies me st xs @ afk_replies me (afk_final me st xs) ys"
  by (induction xs arbitrary: st) (auto split: option.splits)

lemma afk_final_append:
  "afk_final me st (xs @ ys) = afk_final me (afk_final me st xs) ys"
  by (induction xs arbitrary: st) auto

text \<open>
  Claim C2.  While AFK is active, let counterpart \<open>c\<close> send a qualifying message at
  time \<open>t1\<close> when no cooldown is running for \<open>c\<close>, and let every further message of
  \<open>c\<close> in the stream \<open>es\<close> (which may also hold messages of others) arrive less than
  60 seconds after \<open>t1\<close>: the listener answers \<open>c\<close> exactly once.  A further
  qualifying message of \<open>c\<close> at least 60 seconds after \<open>t1\<close> is answered exactly once
  more.  Check and update of the time stamp are one step of \<open>afk_reply_handler\<close>.
\<close>

theorem afk_cooldown:
  assumes active: "is_afk st"
    and first: "qualifying me c m1" "\<not> in_cooldown st c t1"
    and window: "\<forall>e\<in>set es. sender (snd e) = Some c \<longrightarrow> fst e - t1 < AFK_MESSAGE_COOLDOWN"
    and later: "qualifying me c m2" "AFK_MESSAGE_COOLDOWN \<le> t2 - t1"
  shows "length (replies_to c (afk_replies me st ((t1, m1) # es))) = 1 \<and>
         length (replies_to c (afk_replies me st ((t1, m1) # es @ [(t2, m2)]))) = 2"
proof -
  let ?st1 = "st\<lparr>last_afk_message_time := (last_afk_message_time st)(c \<mapsto> t1)\<rparr>"
  from listener_first [OF active first] obtain r
    where step1: "afk_listener me t1 m1 st = (?st1, Some r)" by blast
  have stamp: "last_afk_message_time ?st1 c = Some t1" by simp
  from suppressed [OF stamp window, of me]
  have quiet: "replies_to c (afk_replies me ?st1 es) = []"
    and kept: "last_afk_message_time (afk_final me ?st1 es) c = Some t1"
    and still: "is_afk (afk_final me ?st1 es)"
    using active by simp_all
  have s1: "sender m1 = Some c" by (rule qualifying_sender [OF first(1)])
  have one: "replies_to c (afk_replies me st ((t1, m1) # es)) = [(m1, r)]"
    using step1 quiet s1 by (simp add: replies_to_def)
  from kept later(2) have "\<not> in_cooldown (afk_final me ?st1 es) c t2"
    by (simp add: in_cooldown_def)
  from listener_first [OF still later(1) this] obtain r2 st2
    where step2: "afk_listener me t2 m2 (afk_final me ?st1 es) = (st2, Some r2)" by blast
  have s2: "sender m2 = Some c" by (rule qualifying_sender [OF later(1)])
  have "afk_replies me st ((t1, m1) # es @ [(t2, m2)]) =
        (m1, r) # afk_replies me ?st1 es @ [(m2, r2)]"
    using step1 step2 by (simp add: afk_replies_append)
  then have two: "replies_to c (afk_replies me st ((t1, m1) # es @ [(t2, m2)])) =
        [(m1, r), (m2, r2)]"
    using quiet s1 s2 by (simp add: replies_to_def)
  from one two show ?thesis by simp
qed

theorem afk_cooldown_witness:
  "length (replies_to 2 (afk_replies 1 afk_active_sample
     ((200, private_message_from 2) #
      [(210, private_message_from 2), (230, private_message_from 3),
       (259, private_message_from 2)]))) = 1 \<and>
   length (replies_to 2 (afk_replies 1 afk_active_sample
     ((200, private_message_from 2) #
      [(210, private_message_from 2), (230, private_message_from 3),
       (259, private_message_from 2)] @ [(260, private_message_from 2)]))) = 2"
  using afk_cooldown [of afk_active_sample 1 2 "private_message_from 2" 200
      "[(210, private_message_from 2), (230, private_message_from 3),
        (259, private_message_from 2)]" "private_message_from 2" 260]
  by (simp add: afk_active_sample_def private_message_from_def qualifying_def in_cooldown_def
      sender_def filters_private_def AFK_MESSAGE_COOLDOWN_def)

section \<open>Proofs: the AFK toggle\<close>

lemma command_no_sender:
  "from_user m = None \<Longrightarrow> afk_command_handler me now m w = Inl AttributeError"
  by (simp add: afk_command_handler_def Let_def)

lemma command_toggle:
  assumes "from_user m \<noteq> None"
  shows "\<exists>w' t. afk_command_handler me now m w = Inr (w', t) \<and>
           afk_invariant (fst w') \<and> is_afk (fst w') = (\<not> is_afk (fst w)) \<and>
           last_afk_message_time (fst w') = Map.empty"
  using assms by (simp add: afk_command_handler_def afk_invariant_def Let_def)

lemma command_step_toggle:
  assumes "from_user m \<noteq> None"
  shows "afk_invariant (fst (afk_step me (AfkCommand now m) w))"
    and "is_afk (fst (afk_step me (AfkCommand now m) w)) = (\<not> is_afk (fst w))"
    and "last_afk_message_time (fst (afk_step me (AfkCommand now m) w)) = Map.empty"
  using command_toggle [OF assms, of me now w] by auto

lemma command_step_invariant:
  assumes "afk_invariant (fst w)"
  shows "afk_invariant (fst (afk_step me (AfkCommand now m) w))"
proof (cases "from_user m")
  case None
  with assms show ?thesis
    by (simp add: command_no_sender)
next
  case (Some u)
  then have "from_user m \<noteq> None"
    by simp
  then show ?thesis
    by (rule command_step_toggle)
qed

lemma inbound_step_is_afk:
  "is_afk (fst (afk_step me (Inbound now m) w)) = is_afk (fst w)"
  by (simp add: listener_is_afk)

lemma listener_invariant: "afk_invariant st \<Longrightarrow> afk_invariant (fst (afk_listener me t m st))"
  by (cases "is_afk st") (simp_all add: afk_invariant_def listener_is_afk listener_inactive)

lemma step_invariant:
  assumes "afk_invariant (fst w)"
  shows "afk_invariant (fst (afk_step me e w))"
proof (cases e)
  case (AfkCommand now m)
  with assms show ?thesis
    by (simp only: command_step_invariant)
next
  case (Inbound now m)
  with assms show ?thesis
    by (simp add: listener_invariant)
qed

lemma run_invariant: "afk_invariant (fst w) \<Longrightarrow> afk_invariant (fst (afk_run me es w))"
  by (induction es arbitrary: w) (simp_all add: step_invariant del: afk_step.simps)

lemma command_self_no_sender:
  "from_user m = None \<Longrightarrow> afk_command_handler_self now m st = Inl AttributeError"
  by (simp add: afk_command_handler_self_def)

lemma command_self_toggle:
  assumes "from_user m \<noteq> None"
  shows "\<exists>st' t. afk_command_handler_self now m st = Inr (st', t) \<and>
           afk_invariant st' \<and> is_afk st' = (\<not> is_afk st) \<and>
           last_afk_message_time st' = Map.empty"
  using assms by (simp add: afk_command_handler_self_def afk_invariant_def Let_def)

text \<open>
  Claim C3.  The status the module starts with satisfies the invariant (an inactive
  status has no reason, no start time and an empty cooldown map), and every sequence of
  \<open>.afk\<close> commands and inbound messages keeps it.  An \<open>.afk\<close> command whose message
  has a sender flips the status, in either direction, and leaves the cooldown map
  empty, so the map is empty after the first and after the second of two consecutive
  commands, which lead back to the status they started from; the handler of self.py
  flips and clears in the same way.  For a message without sender both handlers raise
  \<open>AttributeError\<close> in their first statement and change nothing.
\<close>

theorem afk_toggle_invariant:
  "afk_invariant AFK_STATUS_initial \<and>
   (afk_invariant (fst w) \<longrightarrow> afk_invariant (fst (afk_run me es w))) \<and>
   (from_user m = None \<longrightarrow>
      afk_command_handler me now m w = Inl AttributeError \<and>
      afk_step me (AfkCommand now m) w = w \<and>
      afk_command_handler_self now m st = Inl AttributeError) \<and>
   (from_user m \<noteq> None \<longrightarrow>
      (\<exists>w' t. afk_command_handler me now m w = Inr (w', t) \<and>
         afk_step me (AfkCommand now m) w = w' \<and>
         afk_invariant (fst w') \<and> is_afk (fst w') = (\<not> is_afk (fst w)) \<and>
         last_afk_message_time (fst w') = Map.empty) \<and>
      (\<exists>st' t. afk_command_handler_self now m st = Inr (st', t) \<and>
         afk_invariant st' \<and> is_afk st' = (\<not> is_afk st) \<and>
         last_afk_message_time st' = Map.empty)) \<and>
   (from_user m \<noteq> None \<and> from_user m' \<noteq> None \<longrightarrow>
      last_afk_message_time (fst (afk_step me (AfkCommand now m) w)) = Map.empty \<and>
      last_afk_message_time
        (fst (afk_step me (AfkCommand now' m') (afk_step me (AfkCommand now m) w))) =
        Map.empty \<and>
      is_afk (fst (afk_step me (AfkCommand now' m') (afk_step me (AfkCommand now m) w))) =
        is_afk (fst w))"
proof (intro conjI impI)
  show "afk_invariant AFK_STATUS_initial"
    by (simp add: afk_invariant_def AFK_STATUS_initial_def)
  show "afk_invariant (fst (afk_run me es w))" if "afk_invariant (fst w)"
    using that by (rule run_invariant)
next
  assume none: "from_user m = None"
  then show "afk_command_handler me now m w = Inl AttributeError"
    by (rule command_no_sender)
  then show "afk_step me (AfkCommand now m) w = w"
    by simp
  from none show "afk_command_handler_self now m st = Inl AttributeError"
    by (rule command_self_no_sender)
next
  assume some: "from_user m \<noteq> None"
  from command_toggle [OF some, of me now w]
  show "\<exists>w' t. afk_command_handler me now m w = Inr (w', t) \<and>
         afk_step me (AfkCommand now m) w = w' \<and>
         afk_invariant (fst w') \<and> is_afk (fst w') = (\<not> is_afk (fst w)) \<and>
         last_afk_message_time (fst w') = Map.empty"
    by auto
  show "\<exists>st' t. afk_command_handler_self now m st = Inr (st', t) \<and>
         afk_invariant st' \<and> is_afk st' = (\<not> is_afk st) \<and>
         last_afk_message_time st' = Map.empty"
    by (rule command_self_toggle [OF some])
next
  assume both: "from_user m \<noteq> None \<and> from_user m' \<noteq> None"
  then have m: "from_user m \<noteq> None" and m': "from_user m' \<noteq> None"
    by simp_all
  show "last_afk_message_time (fst (afk_step me (AfkCommand now m) w)) = Map.empty"
    by (rule command_step_toggle [OF m])
  show "last_afk_message_time
        (fst (afk_step me (AfkCommand now' m') (afk_step me (AfkCommand now m) w))) =
        Map.empty"
    by (rule command_step_toggle [OF m'])
  show "is_afk (fst (afk_step me (AfkCommand now' m') (afk_step me (AfkCommand now m) w))) =
        is_afk (fst w)"
    by (simp only: command_step_toggle(2) [OF m'] command_step_toggle(2) [OF m]) simp
qed

theorem afk_toggle_invariant_witness:
  "\<not> is_afk (fst (afk_run 1
       [AfkCommand 100 afk_command_message, Inbound 200 (private_message_from 2),
        AfkCommand 300 afk_command_message] (AFK_STATUS_initial, None))) \<and>
   last_afk_message_time (fst (afk_run 1
       [AfkCommand 100 afk_command_message, Inbound 200 (private_message_from 2),
        AfkCommand 300 afk_command_message] (AFK_STATUS_initial, None))) = Map.empty \<and>
   is_afk (fst (afk_step 1 (AfkCommand 100 afk_command_message) (AFK_STATUS_initial, None))) \<and>
   afk_step 1 (AfkCommand 100 (afk_command_message\<lparr>from_user := None\<rparr>))
     (AFK_STATUS_initial, None) = (AFK_STATUS_initial, None)"
proof -
  let ?w = "afk_run 1
       [AfkCommand 100 afk_command_message, Inbound 200 (private_message_from 2),
        AfkCommand 300 afk_command_message] (AFK_STATUS_initial, None)"
  have sender: "from_user afk_command_message \<noteq> None"
    by (simp add: afk_command_message_def)
  have start: "afk_invariant (fst (AFK_STATUS_initial, None :: afk_row option))"
    by (simp add: afk_invariant_def AFK_STATUS_initial_def)
  have "is_afk (fst ?w) = (\<not> \<not> is_afk (fst (AFK_STATUS_initial, None :: afk_row option)))"
    by (simp only: afk_run.simps command_step_toggle(2) [OF sender] inbound_step_is_afk)
  then have off: "\<not> is_afk (fst ?w)"
    by (simp add: AFK_STATUS_initial_def del: afk_run.simps)
  from afk_toggle_invariant [of "(AFK_STATUS_initial, None)" 1
      "[AfkCommand 100 afk_command_message, Inbound 200 (private_message_from 2),
        AfkCommand 300 afk_command_message]"] start
  have inv: "afk_invariant (fst ?w)"
    by blast
  from afk_toggle_invariant [of "(AFK_STATUS_initial, None)" 1 "[]" afk_command_message 100]
    sender
  have "\<exists>w' t. afk_step 1 (AfkCommand 100 afk_command_message) (AFK_STATUS_initial, None) = w' \<and>
      is_afk (fst w') = (\<not> is_afk (fst (AFK_STATUS_initial, None :: afk_row option)))"
    by blast
  then have on: "is_afk (fst (afk_step 1 (AfkCommand 100 afk_command_message)
      (AFK_STATUS_initial, None)))"
    by (simp add: AFK_STATUS_initial_def del: afk_step.simps)
  from afk_toggle_invariant [of "(AFK_STATUS_initial, None)" 1 "[]"
      "afk_command_message\<lparr>from_user := None\<rparr>" 100]
  have raised: "afk_step 1 (AfkCommand 100 (afk_command_message\<lparr>from_user := None\<rparr>))
     (AFK_STATUS_initial, None) = (AFK_STATUS_initial, None)"
    by simp
  from off inv have "last_afk_message_time (fst ?w) = Map.empty"
    by (simp only: afk_invariant_def) simp
  with off on raised show ?thesis
    by (simp only: simp_thms)
qed

section \<open>Proofs: the permission gate\<close>

text \<open>
  Claim C8.  For a command message, the gate either passes or rejects.  When it passes
  (a group chat, the membership query answers, no required capability is missing), the
  wrapper's actions and final state are exactly those of the wrapped handler, for
  every handler and state.  On every other path (not a group, a capability missing,
  \<open>ChatAdminRequired\<close>, any other error of the query) it makes exactly one edit, the
  same for every handler, runs no action of the handler and returns the state as it
  was.
\<close>

theorem gate_pure:
  assumes "command m \<noteq> []"
  shows "(gate_passes permissions member m \<longrightarrow>
            (\<forall>(func :: message \<Rightarrow> 's \<Rightarrow> 'a list \<times> 's) s. require_admin_rights permissions func member m s =
               (map Handler (fst (func m s)), snd (func m s)))) \<and>
         (\<not> gate_passes permissions member m \<longrightarrow>
            (\<exists>t. \<forall>(func :: message \<Rightarrow> 's \<Rightarrow> 'a list \<times> 's) s. require_admin_rights permissions func member m s =
               ([GateEdit t], s)))"
proof (cases member)
  case (Inl e)
  with assms show ?thesis
    by (cases e) (auto simp: gate_passes_def require_admin_rights_def)
next
  case (Inr me_member)
  show ?thesis
  proof (cases "missing_perms me_member permissions")
    case (Inl e)
    with Inr assms show ?thesis
      by (auto simp: gate_passes_def require_admin_rights_def)
  next
    case inr: (Inr ps)
    with Inr assms show ?thesis
      by (cases ps) (auto simp: gate_passes_def require_admin_rights_def)
  qed
qed

theorem gate_pure_witness:
  "require_admin_rights [''can_delete_messages''] (\<lambda>m s. ([''deleted''], Suc s))
     (Inr (member_with [''can_delete_messages''])) purge_message (0 :: nat) =
     ([Handler ''deleted''], 1) \<and>
   length (fst (require_admin_rights [''can_delete_messages''] (\<lambda>m s. ([''deleted''], Suc s))
     (Inr (member_with [])) purge_message (0 :: nat))) = 1 \<and>
   snd (require_admin_rights [''can_delete_messages''] (\<lambda>m s. ([''deleted''], Suc s))
     (Inr (member_with [])) purge_message (0 :: nat)) = 0"
proof -
  have cmd: "command purge_message \<noteq> []"
    by (simp add: purge_message_def)
  have pass: "gate_passes [''can_delete_messages'']
      (Inr (member_with [''can_delete_messages''])) purge_message"
    by (simp add: gate_passes_def member_with_def purge_message_def)
  have fail: "\<not> gate_passes [''can_delete_messages''] (Inr (member_with [])) purge_message"
    by (simp add: gate_passes_def member_with_def purge_message_def)
  from gate_pure [where ?'a = string and ?'s = nat, OF cmd, of "[''can_delete_messages'']"
      "Inr (member_with [''can_delete_messages''])"] pass
  have "require_admin_rights [''can_delete_messages''] (\<lambda>m s. ([''deleted''], Suc s))
     (Inr (member_with [''can_delete_messages''])) purge_message (0 :: nat) =
     ([Handler ''deleted''], 1)"
    by simp
  moreover
  from gate_pure [where ?'a = string and ?'s = nat, OF cmd, of "[''can_delete_messages'']"
      "Inr (member_with [])"] fail
  obtain t where "\<forall>(func :: message \<Rightarrow> nat \<Rightarrow> string list \<times> nat) s.
      require_admin_rights [''can_delete_messages''] func (Inr (member_with []))
        purge_message s = ([GateEdit t], s)"
    by blast
  then have "require_admin_rights [''can_delete_messages''] (\<lambda>m s. ([''deleted''], Suc s))
      (Inr (member_with [])) purge_message (0 :: nat) = ([GateEdit t], 0)"
    by blast
  ultimately show ?thesis
    by simp
qed

section \<open>Proofs: the warning system\<close>

lemma gate_delegates:
  assumes "gate_passes permissions member m"
  shows "require_admin_rights permissions func member m s =
         (map Handler (fst (func m s)), snd (func m s))"
proof (cases member)
  case (Inl e)
  with assms show ?thesis
    by (simp add: gate_passes_def)
next
  case (Inr me_member)
  with assms show ?thesis
    by (auto simp: gate_passes_def require_admin_rights_def)
qed

lemma gate_rejects_state:
  assumes "\<not> gate_passes permissions member m"
  shows "snd (require_admin_rights permissions func member m s) = s"
proof (cases member)
  case (Inl e)
  then show ?thesis
    by (cases e) (simp_all add: require_admin_rights_def)
next
  case (Inr me_member)
  show ?thesis
  proof (cases "missing_perms me_member permissions")
    case (Inl e)
    with Inr show ?thesis
      by (simp add: require_admin_rights_def)
  next
    case inr: (Inr ps)
    with Inr assms show ?thesis
      by (cases ps) (auto simp: gate_passes_def require_admin_rights_def)
  qed
qed

lemma target_resolved:
  "reply_to_message m = None \<Longrightarrow> length (command m) > 1 \<Longrightarrow> py_int (command m ! 1) = Inr u \<Longrightarrow>
   get_target_user_id get_users m = Inr (Some u)"
  by (simp add: get_target_user_id_def)

lemma last_desc: "xs \<noteq> [] \<Longrightarrow> last (rev (sort_key f xs)) = hd (sort_key f xs)"
  by (simp add: last_rev)

lemma delete_by_key:
  assumes "distinct (map warning_id db)" "x \<in> set db"
  shows "filter (\<lambda>w. warning_id w \<noteq> warning_id x) db = filter (\<lambda>w. w \<noteq> x) db"
proof (rule filter_cong [OF refl])
  fix w assume "w \<in> set db"
  with assms show "(warning_id w \<noteq> warning_id x) = (w \<noteq> x)"
    by (auto simp: distinct_map dest: inj_onD)
qed

text \<open>
  Claim C4.  Let \<open>.unwarn\<close> come from a sender in a chat where the gate for
  \<open>can_restrict_members\<close> passes, let its target resolve to user \<open>u\<close>, and let the
  warnings of \<open>u\<close> in the chat, in the order of their (distinct) time stamps, be
  \<open>W1\<close>, then \<open>Ws\<close>.  One invocation removes exactly the row \<open>W1\<close> from the table
  and nothing else, so the warnings of the pair that remain are \<open>Ws\<close>, unchanged, and
  it reports their number.  If the pair has no warning, the table is returned as it was
  and the edit says that the user has no warnings.  When the gate rejects the message,
  or the message has no sender, the table is returned as it was.
\<close>

theorem unwarn_fifo:
  assumes target: "get_target_user_id get_users m = Inr (Some u)" "u \<noteq> 0"
    and keys: "distinct (map warning_id db)"
    and info: "user_info u = Inr name"
  shows "(gate_passes [''can_restrict_members''] member m \<and> from_user m \<noteq> None \<longrightarrow>
          (sort_key timestamp (warnings_of u (chat_id m) db) = W1 # Ws \<and>
             distinct (map timestamp (W1 # Ws)) \<longrightarrow>
           (\<exists>db'. unwarn_command_handler get_users user_info member m db =
                     ([Handler (EditWarn (OneWarningRemoved (length Ws)))], db') \<and>
                  db' = filter (\<lambda>w. w \<noteq> W1) db \<and>
                  sort_key timestamp (warnings_of u (chat_id m) db') = Ws)) \<and>
          (warnings_of u (chat_id m) db = [] \<longrightarrow>
             unwarn_command_handler get_users user_info member m db =
               ([Handler (EditWarn NoWarnings)], db))) \<and>
         (\<not> gate_passes [''can_restrict_members''] member m \<or> from_user m = None \<longrightarrow>
            snd (unwarn_command_handler get_users user_info member m db) = db)"
proof (intro conjI impI)
  assume "\<not> gate_passes [''can_restrict_members''] member m \<or> from_user m = None"
  then show "snd (unwarn_command_handler get_users user_info member m db) = db"
  proof
    assume "\<not> gate_passes [''can_restrict_members''] member m"
    then show ?thesis
      unfolding unwarn_command_handler_def by (rule gate_rejects_state)
  next
    assume none: "from_user m = None"
    show ?thesis
    proof (cases "gate_passes [''can_restrict_members''] member m")
      case True
      with none show ?thesis
        by (simp add: unwarn_command_handler_def gate_delegates unwarn_command_body_def)
    next
      case False
      then show ?thesis
        unfolding unwarn_command_handler_def by (rule gate_rejects_state)
    qed
  qed
next
  assume ok: "gate_passes [''can_restrict_members''] member m \<and> from_user m \<noteq> None"
  assume "warnings_of u (chat_id m) db = []"
  with ok target info
  show "unwarn_command_handler get_users user_info member m db =
          ([Handler (EditWarn NoWarnings)], db)"
    by (simp add: unwarn_command_handler_def gate_delegates unwarn_command_body_def
        warnings_desc_def)
next
  assume ok: "gate_passes [''can_restrict_members''] member m \<and> from_user m \<noteq> None"
  assume a: "sort_key timestamp (warnings_of u (chat_id m) db) = W1 # Ws \<and>
             distinct (map timestamp (W1 # Ws))"
  let ?ws = "warnings_of u (chat_id m) db"
  from a have sorted_ws: "sort_key timestamp ?ws = W1 # Ws" by simp
  then have ne: "?ws \<noteq> []" by auto
  have "W1 \<in> set (sort_key timestamp ?ws)" using sorted_ws by simp
  then have W1_in: "W1 \<in> set db" by (auto simp: warnings_of_def)
  have len: "length ?ws = Suc (length Ws)"
    using sorted_ws by (metis length_Cons length_sort)
  have oldest: "last (warnings_desc u (chat_id m) db) = W1"
    using sorted_ws ne by (simp add: warnings_desc_def last_rev)
  have W1_notin: "W1 \<notin> set Ws"
    using a by auto
  have rest: "sort_key timestamp (warnings_of u (chat_id m) (filter (\<lambda>w. w \<noteq> W1) db)) = Ws"
  proof -
    have "warnings_of u (chat_id m) (filter (\<lambda>w. w \<noteq> W1) db) = filter (\<lambda>w. w \<noteq> W1) ?ws"
      by (auto simp: warnings_of_def intro: filter_cong)
    then have "sort_key timestamp (warnings_of u (chat_id m) (filter (\<lambda>w. w \<noteq> W1) db)) =
               filter (\<lambda>w. w \<noteq> W1) (sort_key timestamp ?ws)"
      by (simp add: filter_sort)
    also have "\<dots> = Ws"
      using W1_notin by (auto simp: sorted_ws filter_id_conv)
    finally show ?thesis .
  qed
  have "unwarn_command_body get_users user_info m db =
        ([EditWarn (OneWarningRemoved (length Ws))], filter (\<lambda>w. w \<noteq> W1) db)"
    using ok target info oldest len delete_by_key [OF keys W1_in] sorted_ws
    by (simp add: unwarn_command_body_def Let_def warnings_desc_def)
  with ok have "unwarn_command_handler get_users user_info member m db =
        ([Handler (EditWarn (OneWarningRemoved (length Ws)))], filter (\<lambda>w. w \<noteq> W1) db)"
    by (simp add: unwarn_command_handler_def gate_delegates)
  with rest show "\<exists>db'. unwarn_command_handler get_users user_info member m db =
                    ([Handler (EditWarn (OneWarningRemoved (length Ws)))], db') \<and>
                 db' = filter (\<lambda>w. w \<noteq> W1) db \<and>
                 sort_key timestamp (warnings_of u (chat_id m) db') = Ws"
    by simp
qed

theorem unwarn_fifo_witness:
  "unwarn_command_handler (\<lambda>n. Inl PeerIdInvalid) (\<lambda>u. Inr ''Bob'')
     (Inr (member_with [''can_restrict_members''])) unwarn_message
     [warning_row 1 12345 10, warning_row 2 777 11, warning_row 3 12345 20,
      warning_row 4 12345 30] =
   ([Handler (EditWarn (OneWarningRemoved 2))],
    [warning_row 2 777 11, warning_row 3 12345 20, warning_row 4 12345 30]) \<and>
   unwarn_command_handler (\<lambda>n. Inl PeerIdInvalid) (\<lambda>u. Inr ''Bob'')
     (Inr (member_with [''can_restrict_members''])) unwarn_message
     [warning_row 2 777 11] = ([Handler (EditWarn NoWarnings)], [warning_row 2 777 11]) \<and>
   snd (unwarn_command_handler (\<lambda>n. Inl PeerIdInvalid) (\<lambda>u. Inr ''Bob'')
     (Inr (member_with [])) unwarn_message
     [warning_row 1 12345 10, warning_row 2 777 11]) =
     [warning_row 1 12345 10, warning_row 2 777 11]"
proof -
  have target: "get_target_user_id (\<lambda>n. Inl PeerIdInvalid) unwarn_message = Inr (Some 12345)"
    and nonzero: "(12345 :: int) \<noteq> 0"
    by (simp_all add: get_target_user_id_def unwarn_message_def py_int_def strip_def
        is_blank_def digits_ok_def is_digit_def int_of_digits_def digit_val_def)
  have gate: "gate_passes [''can_restrict_members'']
      (Inr (member_with [''can_restrict_members''])) unwarn_message"
    and sender: "from_user unwarn_message \<noteq> None"
    and closed: "\<not> gate_passes [''can_restrict_members''] (Inr (member_with [])) unwarn_message"
    by (simp_all add: gate_passes_def member_with_def unwarn_message_def)
  have info: "(\<lambda>u :: int. Inr ''Bob'' :: py_error + string) 12345 = Inr ''Bob''"
    by simp
  have keys: "distinct (map warning_id [warning_row 1 12345 10, warning_row 2 777 11,
      warning_row 3 12345 20, warning_row 4 12345 30])"
    "distinct (map warning_id [warning_row 2 777 11])"
    "distinct (map warning_id [warning_row 1 12345 10, warning_row 2 777 11])"
    by (simp_all add: warning_row_def)
  have "unwarn_command_handler (\<lambda>n. Inl PeerIdInvalid) (\<lambda>u. Inr ''Bob'')
     (Inr (member_with [''can_restrict_members''])) unwarn_message
     [warning_row 1 12345 10, warning_row 2 777 11, warning_row 3 12345 20,
      warning_row 4 12345 30] =
   ([Handler (EditWarn (OneWarningRemoved 2))],
    [warning_row 2 777 11, warning_row 3 12345 20, warning_row 4 12345 30])"
    using unwarn_fifo [OF target nonzero keys(1) info,
      of "Inr (member_with [''can_restrict_members''])"
      "warning_row 1 12345 10" "[warning_row 3 12345 20, warning_row 4 12345 30]"]
      gate sender
    by (simp add: unwarn_message_def warnings_of_def warning_row_def)
  moreover
  have "unwarn_command_handler (\<lambda>n. Inl PeerIdInvalid) (\<lambda>u. Inr ''Bob'')
     (Inr (member_with [''can_restrict_members''])) unwarn_message
     [warning_row 2 777 11] = ([Handler (EditWarn NoWarnings)], [warning_row 2 777 11])"
    using unwarn_fifo [OF target nonzero keys(2) info,
      of "Inr (member_with [''can_restrict_members''])"] gate sender
    by (simp add: unwarn_message_def warnings_of_def warning_row_def)
  moreover
  have "snd (unwarn_command_handler (\<lambda>n. Inl PeerIdInvalid) (\<lambda>u. Inr ''Bob'')
     (Inr (member_with [])) unwarn_message
     [warning_row 1 12345 10, warning_row 2 777 11]) =
     [warning_row 1 12345 10, warning_row 2 777 11]"
    using unwarn_fifo [OF target nonzero keys(3) info, of "Inr (member_with [])"] closed
    by blast
  ultimately show ?thesis
    by (simp only: simp_thms)
qed

section \<open>Proofs: the calculator\<close>

lemmas calc_defs =
  calc_allowed_def is_digit_def is_space_def py_eval_def flush_def token_of_def literal_ok_def
  prec_def int_of_digits_def digit_val_def

lemma sanitize_filter: "sanitize s = filter calc_allowed s"
  by (induction s) simp_all

lemma sanitize_example: "sanitize ''2+2*3; import os'' = ''2+2*3  ''"
  by (simp add: calc_defs)

lemma eval_example: "py_eval ''2+2*3  '' = Value 8"
  by (simp add: calc_defs)

lemma str_8: "str_int 8 = ''8''"
  by (simp add: str_int_def)

lemma calc_arg:
  "extract_arg (calc_message [''2+2*3;'', ''import'', ''os'']) = Some ''2+2*3; import os''"
  by (simp add: calc_message_def extract_arg_def)

lemma handler_example:
  "calc_command_handler (calc_message [''2+2*3;'', ''import'', ''os'']) =
   Some (Result ''2+2*3; import os'' ''8'')"
  by (simp add: calc_command_handler_def calc_arg sanitize_example eval_example str_8
      del: sanitize.simps)

lemma handler_self_example:
  "calc_command_handler_self (calc_message [''2+2*3;'', ''import'', ''os'']) =
   Some (Result ''2+2*3  '' ''8'')"
  by (simp add: calc_command_handler_self_def calc_arg sanitize_example eval_example str_8
      del: sanitize.simps)

text \<open>
  Claim C7, as it stands, fails in one detail: blanks are on the allow-list, so the two
  blanks of \<open>"2+2*3; import os"\<close> stay and the sanitised text is not \<open>"2+2*3"\<close>.
\<close>

theorem calc_sanitize_counterexample:
  "sanitize ''2+2*3; import os'' \<noteq> ''2+2*3''"
  by (simp add: calc_defs)

text \<open>
  Claim C7, amended.  The sanitiser deletes exactly the characters that are not a
  digit, white space or one of \<open>+ - * / ( ) .\<close>, so only such characters reach the
  evaluation.  The input \<open>"2+2*3; import os"\<close> is sanitised to \<open>"2+2*3"\<close> followed by
  its two blanks, which evaluates to 8; the semicolon and the letters are dropped
  without notice and are never evaluated.  The result line of self2.py shows the typed
  text, that of self.py the sanitised text.
\<close>

theorem calc_sanitization:
  "sanitize s = filter calc_allowed s \<and>
   set (sanitize s) \<subseteq> Collect calc_allowed \<and>
   sanitize ''2+2*3; import os'' = ''2+2*3  '' \<and>
   py_eval (sanitize ''2+2*3; import os'') = Value 8 \<and>
   calc_command_handler (calc_message [''2+2*3;'', ''import'', ''os'']) =
     Some (Result ''2+2*3; import os'' ''8'') \<and>
   calc_command_handler_self (calc_message [''2+2*3;'', ''import'', ''os'']) =
     Some (Result ''2+2*3  '' ''8'')"
proof -
  have "set (sanitize s) \<subseteq> Collect calc_allowed"
    by (auto simp: sanitize_filter)
  moreover have "py_eval (sanitize ''2+2*3; import os'') = Value 8"
    by (simp only: sanitize_example eval_example)
  ultimately show ?thesis
    using sanitize_filter [of s] sanitize_example handler_example handler_self_example
    by blast
qed

section \<open>Proofs: the purge command\<close>




lemma py_int_error: "py_int s = Inl e \<Longrightarrow> e = ValueError"
  by (simp add: py_int_def Let_def split: if_splits)

lemma purge_count_error: "purge_count m = Inl e \<Longrightarrow> e = ValueError"
  by (auto simp: purge_count_def split: option.splits if_splits sum.splits dest: py_int_error)









section \<open>Proofs: deferred delivery\<close>

lemma scheduled_loop_eq:
  "scheduled_loop send now due marked tried =
     (marked @ map scheduled_id (filter (settled send now) due),
      tried @ map (\<lambda>msg. (scheduled_id msg, send now (scheduled_id msg) False)) due)"
proof (induction due arbitrary: marked tried)
  case Nil
  then show ?case by simp
next
  case (Cons msg due)
  show ?case
  proof (cases "send now (scheduled_id msg) False")
    case None
    then show ?thesis by (simp add: Cons.IH settled_def)
  next
    case (Some e)
    then show ?thesis by (cases e) (simp_all add: Cons.IH settled_def)
  qed
qed

lemma cycle_rows:
  "fst (scheduled_message_cycle send now db) =
     map (\<lambda>msg. if scheduled_id msg \<in> marked_ids send now db
                 then msg\<lparr>is_sent := True\<rparr> else msg) db"
  by (simp add: scheduled_message_cycle_def Let_def scheduled_loop_eq marked_ids_def)

lemma cycle_ids:
  "map scheduled_id (fst (scheduled_message_cycle send now db)) = map scheduled_id db"
  by (simp add: cycle_rows comp_def if_distrib [of scheduled_id] cong: if_cong)

lemma cycle_attempts:
  "snd (scheduled_message_cycle send now db) =
     map (\<lambda>msg. (scheduled_id msg, send now (scheduled_id msg) False))
       (filter (\<lambda>msg. \<not> is_sent msg \<and> send_time msg \<le> now) db)"
  by (simp add: scheduled_message_cycle_def Let_def scheduled_loop_eq)

lemma cycle_keeps_sent:
  assumes "sent_in k db"
  shows "sent_in k (fst (scheduled_message_cycle send now db))"
proof -
  from assms obtain msg where m: "msg \<in> set db" "scheduled_id msg = k" "is_sent msg"
    by (auto simp: sent_in_def)
  from m(3) have same: "msg\<lparr>is_sent := True\<rparr> = msg"
    by (cases msg) simp
  let ?f = "\<lambda>msg. if scheduled_id msg \<in> marked_ids send now db
                 then msg\<lparr>is_sent := True\<rparr> else msg"
  have "?f msg \<in> set (map ?f db)"
    by (simp only: set_map) (rule imageI, rule m(1))
  moreover have "?f msg = msg"
    using same by simp
  ultimately have "msg \<in> set (fst (scheduled_message_cycle send now db))"
    by (simp only: cycle_rows)
  with m(2,3) show ?thesis
    unfolding sent_in_def by blast
qed

lemma deliveries_append: "deliveries k (xs @ ys) = deliveries k xs + deliveries k ys"
  by (simp add: deliveries_def)

lemma deliveries_sent:
  assumes "distinct (map scheduled_id db)" "sent_in k db"
  shows "deliveries k (snd (scheduled_message_cycle send now db)) = 0"
proof -
  from assms(2) obtain msg where m: "msg \<in> set db" "scheduled_id msg = k" "is_sent msg"
    by (auto simp: sent_in_def)
  have "d \<in> set db \<Longrightarrow> scheduled_id d = k \<Longrightarrow> d = msg" for d
    using assms(1) m(1,2) by (auto simp: distinct_map dest: inj_onD)
  with m(3) show ?thesis
    by (auto simp: cycle_attempts deliveries_def filter_empty_conv)
qed

lemma deliveries_le_rows:
  "distinct (map scheduled_id rows) \<Longrightarrow>
   deliveries k (map (\<lambda>msg. (scheduled_id msg, f msg)) rows) \<le> 1"
proof (induction rows)
  case Nil
  then show ?case by (simp add: deliveries_def)
next
  case (Cons r rows)
  show ?case
  proof (cases "scheduled_id r = k")
    case True
    from Cons.prems have "scheduled_id r \<notin> scheduled_id ` set rows" by simp
    with True have "\<forall>x\<in>set rows. scheduled_id x \<noteq> k" by blast
    then have "deliveries k (map (\<lambda>msg. (scheduled_id msg, f msg)) rows) = 0"
      by (auto simp: deliveries_def filter_empty_conv)
    then show ?thesis by (simp add: deliveries_def)
  next
    case False
    with Cons show ?thesis by (simp add: deliveries_def)
  qed
qed

lemma deliveries_cycle_le:
  assumes "distinct (map scheduled_id db)"
  shows "deliveries k (snd (scheduled_message_cycle send now db)) \<le> 1"
proof -
  from assms have "distinct (map scheduled_id
      (filter (\<lambda>msg. \<not> is_sent msg \<and> send_time msg \<le> now) db))"
    by (rule distinct_map_filter)
  then show ?thesis
    unfolding cycle_attempts by (rule deliveries_le_rows)
qed

lemma delivered_is_sent:
  assumes "deliveries k (snd (scheduled_message_cycle send now db)) \<noteq> 0"
  shows "sent_in k (fst (scheduled_message_cycle send now db))"
proof -
  from assms have "(k, None) \<in> set (snd (scheduled_message_cycle send now db))"
    by (auto simp: deliveries_def filter_empty_conv)
  then obtain msg where m: "msg \<in> set db" "\<not> is_sent msg" "send_time msg \<le> now"
    "scheduled_id msg = k" "send now k False = None"
    unfolding cycle_attempts by auto
  then have "settled send now msg"
    by (simp add: settled_def)
  with m(1,2,3) have marked: "scheduled_id msg \<in> marked_ids send now db"
    unfolding marked_ids_def by blast
  let ?f = "\<lambda>msg. if scheduled_id msg \<in> marked_ids send now db
                 then msg\<lparr>is_sent := True\<rparr> else msg"
  have "?f msg \<in> set (map ?f db)"
    by (simp only: set_map) (rule imageI, rule m(1))
  moreover have "?f msg = msg\<lparr>is_sent := True\<rparr>"
    using marked by simp
  ultimately have "msg\<lparr>is_sent := True\<rparr> \<in> set (fst (scheduled_message_cycle send now db))"
    by (simp only: cycle_rows)
  moreover have "scheduled_id (msg\<lparr>is_sent := True\<rparr>) = k" "is_sent (msg\<lparr>is_sent := True\<rparr>)"
    using m(4) by simp_all
  ultimately show ?thesis
    unfolding sent_in_def by blast
qed

lemma scheduled_at_most_once:
  "distinct (map scheduled_id db) \<Longrightarrow>
   deliveries k (scheduled_message_task send ticks db) \<le> 1 \<and>
   (sent_in k db \<longrightarrow> deliveries k (scheduled_message_task send ticks db) = 0)"
proof (induction ticks arbitrary: db)
  case Nil
  then show ?case by (simp add: deliveries_def)
next
  case (Cons now ticks)
  let ?db = "fst (scheduled_message_cycle send now db)"
  let ?here = "deliveries k (snd (scheduled_message_cycle send now db))"
  let ?later = "deliveries k (scheduled_message_task send ticks ?db)"
  from Cons.prems have "distinct (map scheduled_id ?db)"
    by (simp add: cycle_ids)
  from Cons.IH [OF this]
  have later: "?later \<le> 1" "sent_in k ?db \<Longrightarrow> ?later = 0"
    by simp_all
  have here: "?here \<le> 1"
    by (rule deliveries_cycle_le [OF Cons.prems])
  have total: "deliveries k (scheduled_message_task send (now # ticks) db) = ?here + ?later"
    by (simp add: deliveries_append)
  have "?here + ?later \<le> 1"
  proof (cases "?here = 0")
    case True
    with later(1) show ?thesis by simp
  next
    case False
    then have "sent_in k ?db" by (rule delivered_is_sent)
    with later(2) here show ?thesis by simp
  qed
  moreover have "?here + ?later = 0" if "sent_in k db"
    using that deliveries_sent [OF Cons.prems that] later(2) cycle_keeps_sent by simp
  ultimately show ?case
    unfolding total by blast
qed

lemmas delivery_defs =
  reminder_cycle_def scheduled_message_cycle_def send_reminder_def second_fails_def
  two_reminders_def two_scheduled_def deliveries_def

text \<open>
  Claim C1.  The scheduled-message loop delivers every item at most once
  (\<open>scheduled_at_most_once\<close>).  The reminder loop does not: with two due reminders, the
  first delivered and the second failing with a transient error, the \<open>except\<close> clause
  for the second raises \<open>AttributeError\<close> (\<open>rem.chat.id\<close>), the commit is skipped, the
  first reminder stays active in the table, and the next cycle, 15 seconds later,
  delivers it again.  On the same input the scheduled-message loop delivers the first
  item once.
\<close>

theorem reminder_delivered_twice:
  "reminder_task second_fails [100, 115] two_reminders =
     [(1, None), (2, Some OtherError), (1, None), (2, Some OtherError)] \<and>
   deliveries 1 (reminder_task second_fails [100, 115] two_reminders) = 2 \<and>
   fst (reminder_cycle second_fails 100 two_reminders) = two_reminders \<and>
   deliveries 1 (scheduled_message_task second_fails [100, 130] two_scheduled) = 1"
  by (simp add: delivery_defs)

section \<open>Proofs: Base64\<close>

text \<open>
  The decoder undoes the encoder on every byte string; the encoder's output is ASCII, on
  which UTF-8 is the identity; and strict UTF-8 decoding undoes UTF-8 encoding on every
  Unicode text.
\<close>

lemma of_char_bound: "(of_char c :: nat) < 256"
proof -
  have "(of_char c :: nat) \<in> range of_char" by simp
  then show ?thesis unfolding range_nat_of_char by simp
qed

lemma index_of_nth:
  "distinct xs \<Longrightarrow> n < length xs \<Longrightarrow> index_of xs (xs ! n) = Some n"
proof (induction xs arbitrary: n)
  case Nil
  then show ?case by simp
next
  case (Cons x xs)
  show ?case
  proof (cases n)
    case 0
    then show ?thesis by simp
  next
    case (Suc k)
    with Cons.prems have "xs ! k \<in> set xs" "x \<notin> set xs" "k < length xs" by auto
    then have "xs ! k \<noteq> x" by auto
    with Suc Cons.IH [of k] Cons.prems show ?thesis by simp
  qed
qed

lemma alphabet_length: "length b64_alphabet = 64"
  by (simp add: b64_alphabet_def)

lemma alphabet_distinct: "distinct b64_alphabet"
  by (simp add: b64_alphabet_def)

lemma alphabet_no_pad: "CHR ''='' \<notin> set b64_alphabet"
  by (simp add: b64_alphabet_def)

lemma alphabet_ascii: "\<forall>c \<in> set b64_alphabet. (of_char c :: nat) < 128"
  by (simp add: b64_alphabet_def)

lemma b64_char_in: "n < 64 \<Longrightarrow> b64_char n \<in> set b64_alphabet"
  by (simp add: b64_char_def alphabet_length)

lemma b64_char_index: "n < 64 \<Longrightarrow> index_of b64_alphabet (b64_char n) = Some n"
  unfolding b64_char_def by (rule index_of_nth [OF alphabet_distinct]) (simp add: alphabet_length)

lemma b64_char_no_pad: "n < 64 \<Longrightarrow> b64_char n \<noteq> CHR ''=''"
  using b64_char_in alphabet_no_pad by metis

lemma a2b_symbol:
  assumes "n < 64"
  shows "a2b_base64 q l p out (b64_char n # rest) =
     (if q = 0 then a2b_base64 1 n 0 out rest
      else if q = 1 then a2b_base64 2 (n mod 16) 0 (out @ [char_of (l * 4 + n div 16)]) rest
      else if q = 2 then a2b_base64 3 (n mod 4) 0 (out @ [char_of (l * 16 + n div 4)]) rest
      else a2b_base64 0 0 0 (out @ [char_of (l * 64 + n)]) rest)"
  using b64_char_index [OF assms] b64_char_no_pad [OF assms] by simp

lemma a2b_quad:
  assumes "n0 < 64" "n1 < 64" "n2 < 64" "n3 < 64"
  shows "a2b_base64 0 l p out (b64_char n0 # b64_char n1 # b64_char n2 # b64_char n3 # rest) =
         a2b_base64 0 0 0
           (out @ [char_of (n0 * 4 + n1 div 16), char_of (n1 mod 16 * 16 + n2 div 4),
                   char_of (n2 mod 4 * 64 + n3)]) rest"
  by (simp add: a2b_symbol assms del: a2b_base64.simps)

lemma a2b_last2:
  assumes "n0 < 64" "n1 < 64"
  shows "a2b_base64 0 l p out [b64_char n0, b64_char n1, CHR ''='', CHR ''=''] =
         Inr (out @ [char_of (n0 * 4 + n1 div 16)])"
  by (simp add: a2b_symbol assms del: a2b_base64.simps) simp

lemma a2b_last3:
  assumes "n0 < 64" "n1 < 64" "n2 < 64"
  shows "a2b_base64 0 l p out [b64_char n0, b64_char n1, b64_char n2, CHR ''=''] =
         Inr (out @ [char_of (n0 * 4 + n1 div 16), char_of (n1 mod 16 * 16 + n2 div 4)])"
  by (simp add: a2b_symbol assms del: a2b_base64.simps) simp


lemma byte_split:
  fixes a b c :: nat
  assumes "a < 256" "b < 256" "c < 256"
  shows "a div 4 < 64" "a mod 4 * 16 + b div 16 < 64" "b mod 16 * 4 + c div 64 < 64"
    "c mod 64 < 64" "a mod 4 * 16 < 64" "b mod 16 * 4 < 64"
    "a div 4 * 4 + (a mod 4 * 16 + b div 16) div 16 = a"
    "(a mod 4 * 16 + b div 16) mod 16 * 16 + (b mod 16 * 4 + c div 64) div 4 = b"
    "(b mod 16 * 4 + c div 64) mod 4 * 64 + c mod 64 = c"
    "a div 4 * 4 + (a mod 4 * 16) div 16 = a"
    "(a mod 4 * 16 + b div 16) mod 16 * 16 + (b mod 16 * 4) div 4 = b"
proof -
  have a4: "a div 4 < 64" and b16: "b div 16 < 16" and c64: "c div 64 < 4"
    using assms by (simp_all add: less_mult_imp_div_less)
  have am: "a mod 4 < 4" and bm: "b mod 16 < 16" and cm: "c mod 64 < 64"
    by simp_all
  show "a div 4 < 64" by (rule a4)
  show "c mod 64 < 64" by (rule cm)
  from am have am': "a mod 4 \<le> 3" by simp
  from bm have bm': "b mod 16 \<le> 15" by simp
  from am' show "a mod 4 * 16 < 64" by simp
  from bm' show "b mod 16 * 4 < 64" by simp
  from am' b16 show "a mod 4 * 16 + b div 16 < 64" by simp
  from bm' c64 show "b mod 16 * 4 + c div 64 < 64" by simp
  have d1: "(a mod 4 * 16 + b div 16) div 16 = a mod 4"
    using b16 by simp
  have m1: "(a mod 4 * 16 + b div 16) mod 16 = b div 16"
    using b16 by simp
  have d2: "(b mod 16 * 4 + c div 64) div 4 = b mod 16"
    using c64 by simp
  have m2: "(b mod 16 * 4 + c div 64) mod 4 = c div 64"
    using c64 by simp
  show "a div 4 * 4 + (a mod 4 * 16 + b div 16) div 16 = a"
    by (simp only: d1) simp
  show "(a mod 4 * 16 + b div 16) mod 16 * 16 + (b mod 16 * 4 + c div 64) div 4 = b"
    by (simp only: m1 d2) simp
  show "(b mod 16 * 4 + c div 64) mod 4 * 64 + c mod 64 = c"
    by (simp only: m2) simp
  show "a div 4 * 4 + (a mod 4 * 16) div 16 = a"
    by simp
  show "(a mod 4 * 16 + b div 16) mod 16 * 16 + (b mod 16 * 4) div 4 = b"
    by (simp only: m1) simp
qed

lemma b64_roundtrip: "a2b_base64 0 l p out (b64encode bs) = Inr (out @ bs)"
proof (induction bs arbitrary: l p out rule: b64encode.induct)
  case 1
  then show ?case by simp
next
  case (2 x)
  let ?a = "of_char x :: nat"
  note s = byte_split [OF of_char_bound [of x] of_char_bound [of x] of_char_bound [of x]]
  have "a2b_base64 0 l p out (b64encode [x]) =
      a2b_base64 0 l p out
        [b64_char (?a div 4), b64_char (?a mod 4 * 16), CHR ''='', CHR ''='']"
    by (simp only: b64encode.simps Let_def)
  also have "\<dots> = Inr (out @ [char_of (?a div 4 * 4 + (?a mod 4 * 16) div 16)])"
    by (rule a2b_last2) (rule s)+
  also have "\<dots> = Inr (out @ [x])"
    by (simp only: s char_of_char)
  finally show ?case .
next
  case (3 x y)
  let ?a = "of_char x :: nat"
  let ?b = "of_char y :: nat"
  note s = byte_split [OF of_char_bound [of x] of_char_bound [of y] of_char_bound [of y]]
  have "a2b_base64 0 l p out (b64encode [x, y]) =
      a2b_base64 0 l p out
        [b64_char (?a div 4), b64_char (?a mod 4 * 16 + ?b div 16), b64_char (?b mod 16 * 4),
         CHR ''='']"
    by (simp only: b64encode.simps Let_def)
  also have "\<dots> = Inr (out @
      [char_of (?a div 4 * 4 + (?a mod 4 * 16 + ?b div 16) div 16),
       char_of ((?a mod 4 * 16 + ?b div 16) mod 16 * 16 + (?b mod 16 * 4) div 4)])"
    by (rule a2b_last3) (rule s)+
  also have "\<dots> = Inr (out @ [x, y])"
    by (simp only: s char_of_char)
  finally show ?case .
next
  case (4 x y z rest)
  let ?a = "of_char x :: nat"
  let ?b = "of_char y :: nat"
  let ?c = "of_char z :: nat"
  note s = byte_split [OF of_char_bound [of x] of_char_bound [of y] of_char_bound [of z]]
  have "a2b_base64 0 l p out (b64encode (x # y # z # rest)) =
      a2b_base64 0 l p out
        (b64_char (?a div 4) # b64_char (?a mod 4 * 16 + ?b div 16) #
         b64_char (?b mod 16 * 4 + ?c div 64) # b64_char (?c mod 64) # b64encode rest)"
    by (simp only: b64encode.simps Let_def append.simps)
  also have "\<dots> = a2b_base64 0 0 0 (out @
      [char_of (?a div 4 * 4 + (?a mod 4 * 16 + ?b div 16) div 16),
       char_of ((?a mod 4 * 16 + ?b div 16) mod 16 * 16 + (?b mod 16 * 4 + ?c div 64) div 4),
       char_of ((?b mod 16 * 4 + ?c div 64) mod 4 * 64 + ?c mod 64)])
      (b64encode rest)"
    by (rule a2b_quad) (rule s)+
  also have "\<dots> = a2b_base64 0 0 0 (out @ [x, y, z]) (b64encode rest)"
    by (simp only: s char_of_char)
  also have "\<dots> = Inr ((out @ [x, y, z]) @ rest)"
    by (rule "4.IH") (rule refl)+
  finally show ?case by simp
qed


lemma b64_char_ascii: "n < 64 \<Longrightarrow> (of_char (b64_char n) :: nat) < 128"
  using b64_char_in alphabet_ascii by blast

lemma b64encode_ascii: "\<forall>c \<in> set (b64encode bs). (of_char c :: nat) < 128"
proof (induction bs rule: b64encode.induct)
  case 1
  then show ?case by simp
next
  case (2 x)
  note s = byte_split [OF of_char_bound [of x] of_char_bound [of x] of_char_bound [of x]]
  show ?case by (simp add: Let_def b64_char_ascii s)
next
  case (3 x y)
  note s = byte_split [OF of_char_bound [of x] of_char_bound [of y] of_char_bound [of y]]
  show ?case by (simp add: Let_def b64_char_ascii s)
next
  case (4 x y z rest)
  note s = byte_split [OF of_char_bound [of x] of_char_bound [of y] of_char_bound [of z]]
  from "4.IH" [OF refl refl refl] show ?case by (simp add: Let_def b64_char_ascii s)
qed

lemma b64encode_nonempty: "bs \<noteq> [] \<Longrightarrow> b64encode bs \<noteq> []"
  by (cases bs rule: b64encode.cases) (simp_all add: Let_def)

lemma utf8_decode_ascii:
  "\<forall>c \<in> set cs. (of_char c :: nat) < 128 \<Longrightarrow> utf8_decode cs = Inr (map of_char cs)"
  by (induction cs) (simp_all add: prepend_def)

lemma utf8_encode_ascii:
  "\<forall>c \<in> set cs. (of_char c :: nat) < 128 \<Longrightarrow> utf8_encode (map of_char cs) = Inr cs"
  by (induction cs) (simp_all add: encode_char_def)

lemma decode1:
  assumes "cp < 128"
  shows "utf8_decode (char_of cp # rest) = prepend cp (utf8_decode rest)"
  using assms by simp

lemma decode2:
  assumes "128 \<le> cp" "cp < 2048"
  shows "utf8_decode (char_of (192 + cp div 64) # char_of (128 + cp mod 64) # rest) =
         prepend cp (utf8_decode rest)"
proof -
  have d: "cp div 64 < 32" using assms by (simp add: less_mult_imp_div_less)
  have m: "cp mod 64 < 64" by simp
  have b0: "(192 + cp div 64) mod 256 = 192 + cp div 64" using d by simp
  have b1: "(128 + cp mod 64) mod 256 = 128 + cp mod 64" using m by simp
  have v: "cp div 64 * 64 + cp mod 64 = cp" by simp
  show ?thesis
    using assms d by (simp add: b0 b1 v continuation_def low6_def Let_def)
qed


lemma decode3:
  assumes "2048 \<le> cp" "cp < 65536" "\<not> (55296 \<le> cp \<and> cp \<le> 57343)"
  shows "utf8_decode (char_of (224 + cp div 4096) # char_of (128 + cp div 64 mod 64) #
                      char_of (128 + cp mod 64) # rest) =
         prepend cp (utf8_decode rest)"
proof -
  have d: "cp div 4096 < 16" using assms by (simp add: less_mult_imp_div_less)
  have b0: "(224 + cp div 4096) mod 256 = 224 + cp div 4096" using d by simp
  have m1: "cp div 64 mod 64 < 64" by simp
  have b1: "(128 + cp div 64 mod 64) mod 256 = 128 + cp div 64 mod 64" using m1 by simp
  have m2: "cp mod 64 < 64" by simp
  have b2: "(128 + cp mod 64) mod 256 = 128 + cp mod 64" using m2 by simp
  have "cp div 4096 = cp div 64 div 64" by (simp add: div_mult2_eq [symmetric])
  then have "cp div 4096 * 64 + cp div 64 mod 64 = cp div 64" by simp
  then have "cp div 4096 * 4096 + cp div 64 mod 64 * 64 = cp div 64 * 64" by simp
  then have v: "cp div 4096 * 4096 + cp div 64 mod 64 * 64 + cp mod 64 = cp" by simp
  have lead: "\<not> 224 + cp div 4096 < 128" "\<not> 224 + cp div 4096 < 192"
    "\<not> 224 + cp div 4096 < 224" "224 + cp div 4096 < 240"
    using d by simp_all
  show ?thesis
    using assms by (simp add: b0 b1 b2 v lead continuation_def low6_def Let_def)
qed

lemma decode4:
  assumes "65536 \<le> cp" "cp < 1114112"
  shows "utf8_decode (char_of (240 + cp div 262144) # char_of (128 + cp div 4096 mod 64) #
                      char_of (128 + cp div 64 mod 64) # char_of (128 + cp mod 64) # rest) =
         prepend cp (utf8_decode rest)"
proof -
  have d: "cp div 262144 < 5" using assms by (simp add: less_mult_imp_div_less)
  have b0: "(240 + cp div 262144) mod 256 = 240 + cp div 262144" using d by simp
  have m0: "cp div 4096 mod 64 < 64" by simp
  have b1: "(128 + cp div 4096 mod 64) mod 256 = 128 + cp div 4096 mod 64" using m0 by simp
  have m1: "cp div 64 mod 64 < 64" by simp
  have b2: "(128 + cp div 64 mod 64) mod 256 = 128 + cp div 64 mod 64" using m1 by simp
  have m2: "cp mod 64 < 64" by simp
  have b3: "(128 + cp mod 64) mod 256 = 128 + cp mod 64" using m2 by simp
  have "cp div 4096 = cp div 64 div 64" by (simp add: div_mult2_eq [symmetric])
  then have e1: "cp div 4096 * 64 + cp div 64 mod 64 = cp div 64" by simp
  have "cp div 262144 = cp div 4096 div 64" by (simp add: div_mult2_eq [symmetric])
  then have e2: "cp div 262144 * 64 + cp div 4096 mod 64 = cp div 4096" by simp
  from e2 have "cp div 262144 * 262144 + cp div 4096 mod 64 * 4096 = cp div 4096 * 4096"
    by simp
  moreover from e1 have "cp div 4096 * 4096 + cp div 64 mod 64 * 64 = cp div 64 * 64"
    by simp
  ultimately have v: "cp div 262144 * 262144 + cp div 4096 mod 64 * 4096 +
      cp div 64 mod 64 * 64 + cp mod 64 = cp"
    by simp
  have lead: "\<not> 240 + cp div 262144 < 128" "\<not> 240 + cp div 262144 < 192"
    "\<not> 240 + cp div 262144 < 224" "\<not> 240 + cp div 262144 < 240"
    "240 + cp div 262144 < 248"
    using d by simp_all
  show ?thesis
    using assms by (simp add: b0 b1 b2 b3 v lead continuation_def low6_def Let_def)
qed

lemma encode_char_decode:
  assumes "scalar cp"
  shows "\<exists>cs. encode_char cp = Inr cs \<and> cs \<noteq> [] \<and>
           (\<forall>rest. utf8_decode (cs @ rest) = prepend cp (utf8_decode rest))"
proof -
  consider "cp < 128" | "128 \<le> cp" "cp < 2048"
    | "2048 \<le> cp" "cp < 65536" "\<not> (55296 \<le> cp \<and> cp \<le> 57343)"
    | "65536 \<le> cp" "cp < 1114112"
    using assms unfolding scalar_def by linarith
  then show ?thesis
  proof cases
    case 1
    then have "encode_char cp = Inr [char_of cp]" by (simp add: encode_char_def)
    with decode1 [OF 1] show ?thesis by simp
  next
    case 2
    then have "encode_char cp = Inr [char_of (192 + cp div 64), char_of (128 + cp mod 64)]"
      by (simp add: encode_char_def)
    with decode2 [OF 2] show ?thesis by simp
  next
    case 3
    then have "encode_char cp =
        Inr [char_of (224 + cp div 4096), char_of (128 + cp div 64 mod 64),
             char_of (128 + cp mod 64)]"
      by (simp add: encode_char_def)
    with decode3 [OF 3] show ?thesis by simp
  next
    case 4
    then have "encode_char cp =
        Inr [char_of (240 + cp div 262144), char_of (128 + cp div 4096 mod 64),
             char_of (128 + cp div 64 mod 64), char_of (128 + cp mod 64)]"
      by (simp add: encode_char_def)
    with decode4 [OF 4] show ?thesis by simp
  qed
qed

lemma utf8_roundtrip:
  "unicode_text s \<Longrightarrow>
   \<exists>bs. utf8_encode s = Inr bs \<and> utf8_decode bs = Inr s \<and> (s \<noteq> [] \<longrightarrow> bs \<noteq> [])"
proof (induction s)
  case Nil
  then show ?case by simp
next
  case (Cons cp s)
  then have "scalar cp" "unicode_text s" by (simp_all add: unicode_text_def)
  from encode_char_decode [OF \<open>scalar cp\<close>] obtain cs where
    cs: "encode_char cp = Inr cs" "cs \<noteq> []"
      "\<And>rest. utf8_decode (cs @ rest) = prepend cp (utf8_decode rest)"
    by blast
  from Cons.IH [OF \<open>unicode_text s\<close>] obtain bs where
    bs: "utf8_encode s = Inr bs" "utf8_decode bs = Inr s"
    by blast
  have "utf8_encode (cp # s) = Inr (cs @ bs)" using cs(1) bs(1) by simp
  moreover have "utf8_decode (cs @ bs) = Inr (cp # s)"
    using cs(3) [of bs] bs(2) by (simp add: prepend_def)
  ultimately show ?case using cs(2) by simp
qed

lemma b64decode_b64encode: "b64decode (b64encode bs) = Inr bs"
  using b64_roundtrip [of 0 0 "[]" bs] by (simp add: b64decode_def)

lemma encoded_text_ascii:
  "utf8_encode s = Inr bs \<Longrightarrow> encoded_text s = Inr (map of_char (b64encode bs))"
  by (simp add: encoded_text_def utf8_decode_ascii [OF b64encode_ascii])

lemma decoded_text_encoded:
  "decoded_text (map of_char (b64encode bs)) = utf8_decode bs"
  by (simp add: decoded_text_def utf8_encode_ascii [OF b64encode_ascii] b64decode_b64encode)

lemma codec_left_inverse:
  assumes "unicode_text s"
  shows "\<exists>e. encoded_text s = Inr e \<and> decoded_text e = Inr s \<and> (s \<noteq> [] \<longrightarrow> e \<noteq> [])"
proof -
  from utf8_roundtrip [OF assms] obtain bs where
    bs: "utf8_encode s = Inr bs" "utf8_decode bs = Inr s" "s \<noteq> [] \<longrightarrow> bs \<noteq> []"
    by blast
  let ?e = "map of_char (b64encode bs) :: nat list"
  have "encoded_text s = Inr ?e" by (rule encoded_text_ascii [OF bs(1)])
  moreover have "decoded_text ?e = Inr s" by (simp only: decoded_text_encoded bs(2))
  moreover have "s \<noteq> [] \<longrightarrow> ?e \<noteq> []" using bs(3) b64encode_nonempty by simp
  ultimately show ?thesis by blast
qed

lemma resolved_nonempty:
  "text_or_reply arg reply_text = Some s \<Longrightarrow> s \<noteq> []"
  by (auto simp add: text_or_reply_def split: if_splits)

lemma resolve_argument:
  "e \<noteq> [] \<Longrightarrow> text_or_reply (extract_arg_text [name, e]) reply_text = Some e"
  by (simp add: text_or_reply_def extract_arg_text_def)

lemma resolve_reply:
  "e \<noteq> [] \<Longrightarrow> text_or_reply (extract_arg_text [name]) (Some e) = Some e"
  by (simp add: text_or_reply_def extract_arg_text_def)

text \<open>
  Claim C9, as it stands, fails for the empty text.  Both handlers refuse an empty text by
  the guard \<open>elif not text\<close>: \<open>.base64e\<close> without a text encodes nothing and shows the
  usage hint, and decoding that hint with \<open>.base64d\<close> gives the error of an incomplete
  quad, not the empty text.
\<close>

theorem base64_empty_text_counterexample:
  "unicode_text [] \<and>
   base64_encode_handler (Some base64_sender) [base64e_name] None = Inr PleaseProvideText \<and>
   base64_decode_handler (Some base64_sender) [base64d_name] (Some usage_hint_shown) =
     Inr (ErrorBase64 BinasciiError)"
proof -
  have enc: "utf8_encode (map of_char ''Please provide text to encode.'') =
      Inr ''Please provide text to encode.''"
    by (rule utf8_encode_ascii) simp
  have dec: "b64decode ''Please provide text to encode.'' = Inl BinasciiError"
    by (simp add: b64decode_def b64_alphabet_def)
  have hint: "text_or_reply (extract_arg_text [base64d_name]) (Some usage_hint_shown) =
      Some usage_hint_shown"
    by (simp add: text_or_reply_def extract_arg_text_def usage_hint_shown_def)
  have "decoded_text usage_hint_shown = Inl BinasciiError"
    by (simp only: decoded_text_def usage_hint_shown_def enc dec sum.case)
  then have "base64_decode_handler (Some base64_sender) [base64d_name] (Some usage_hint_shown) =
      Inr (ErrorBase64 BinasciiError)"
    by (simp only: base64_decode_handler_def hint option.case sum.case option.distinct if_False)
  moreover have "base64_encode_handler (Some base64_sender) [base64e_name] None =
      Inr PleaseProvideText"
    by (simp add: base64_encode_handler_def text_or_reply_def extract_arg_text_def)
  moreover have "unicode_text []" by (simp add: unicode_text_def)
  ultimately show ?thesis by blast
qed

text \<open>
  Claim C9, amended.  For every non-empty Unicode text \<open>s\<close>, decoding with \<open>.base64d\<close>
  the output of \<open>.base64e\<close> yields exactly \<open>s\<close>.  Here \<open>s\<close> is the text that
  \<open>.base64e\<close> resolves from its message, the argument or the text of the replied-to
  message, which is non-empty whenever it is resolved (\<open>resolved_nonempty\<close>), and every
  non-empty text is resolved when it is the replied-to text (\<open>resolve_reply\<close>).  The
  handler then shows an encoding \<open>e\<close>, and \<open>.base64d\<close> shows \<open>s\<close> when it is given
  \<open>e\<close> as its argument or as the text of the replied-to message.
\<close>

theorem base64_left_inverse:
  assumes unicode: "unicode_text s"
    and resolved: "text_or_reply (extract_arg_text tokens) reply_text = Some s"
  shows "\<exists>e. base64_encode_handler (Some u) tokens reply_text = Inr (Base64Encoded e) \<and>
           base64_decode_handler (Some v) [name, e] other_reply = Inr (Base64Decoded s) \<and>
           base64_decode_handler (Some v) [name] (Some e) = Inr (Base64Decoded s)"
proof -
  from resolved have "s \<noteq> []" by (rule resolved_nonempty)
  with codec_left_inverse [OF unicode] obtain e where
    e: "encoded_text s = Inr e" "decoded_text e = Inr s" "e \<noteq> []"
    by blast
  have "base64_encode_handler (Some u) tokens reply_text = Inr (Base64Encoded e)"
    by (simp add: base64_encode_handler_def resolved e(1))
  moreover have "base64_decode_handler (Some v) [name, e] other_reply = Inr (Base64Decoded s)"
    by (simp add: base64_decode_handler_def resolve_argument [OF e(3)] e(2))
  moreover have "base64_decode_handler (Some v) [name] (Some e) = Inr (Base64Decoded s)"
    by (simp add: base64_decode_handler_def resolve_reply [OF e(3)] e(2))
  ultimately show ?thesis by blast
qed

text \<open>The theorem at the text \<open>U+0633 U+0644 U+0627 U+0645\<close>, encoded as \<open>2LPZhNin2YU=\<close>.\<close>

lemma sample_unicode: "unicode_text [1587, 1604, 1575, 1605]"
  by (simp add: unicode_text_def scalar_def)

lemma sample_resolved:
  "text_or_reply (extract_arg_text [base64e_name, [1587, 1604, 1575, 1605]]) None =
   Some [1587, 1604, 1575, 1605]"
  by (simp add: text_or_reply_def extract_arg_text_def)

lemma sample_encoded:
  "encoded_text [1587, 1604, 1575, 1605] = Inr (map of_char ''2LPZhNin2YU='')"
  by (simp add: encoded_text_def encode_char_def Let_def b64_char_def b64_alphabet_def
      prepend_def)

lemma sample_b64decode:
  "b64decode ''2LPZhNin2YU='' =
   Inr [char_of (216 :: nat), char_of (179 :: nat), char_of (217 :: nat), char_of (132 :: nat),
        char_of (216 :: nat), char_of (167 :: nat), char_of (217 :: nat), char_of (133 :: nat)]"
  by (simp add: b64decode_def b64_alphabet_def)

lemma sample_decoded:
  "decoded_text (map of_char ''2LPZhNin2YU='') = Inr [1587, 1604, 1575, 1605]"
proof -
  have "utf8_encode (map of_char ''2LPZhNin2YU='') = Inr ''2LPZhNin2YU=''"
    by (rule utf8_encode_ascii) simp
  then show ?thesis
    by (simp add: decoded_text_def sample_b64decode continuation_def low6_def prepend_def
        del: map_eq_Cons_conv list.map)
qed

theorem base64_left_inverse_witness:
  "unicode_text [1587, 1604, 1575, 1605] \<and>
   text_or_reply (extract_arg_text [base64e_name, [1587, 1604, 1575, 1605]]) None =
     Some [1587, 1604, 1575, 1605] \<and>
   base64_encode_handler (Some base64_sender) [base64e_name, [1587, 1604, 1575, 1605]] None =
     Inr (Base64Encoded (map of_char ''2LPZhNin2YU='')) \<and>
   base64_decode_handler (Some base64_sender) [base64d_name, map of_char ''2LPZhNin2YU=''] None =
     Inr (Base64Decoded [1587, 1604, 1575, 1605]) \<and>
   base64_decode_handler (Some base64_sender) [base64d_name] (Some (map of_char ''2LPZhNin2YU='')) =
     Inr (Base64Decoded [1587, 1604, 1575, 1605])"
proof -
  have hint: "text_or_reply (extract_arg_text [base64d_name, map of_char ''2LPZhNin2YU='']) None =
      Some (map of_char ''2LPZhNin2YU='')"
    "text_or_reply (extract_arg_text [base64d_name]) (Some (map of_char ''2LPZhNin2YU='')) =
      Some (map of_char ''2LPZhNin2YU='')"
    by (simp_all add: text_or_reply_def extract_arg_text_def)
  have encoded: "base64_encode_handler (Some base64_sender)
      [base64e_name, [1587, 1604, 1575, 1605]] None =
      Inr (Base64Encoded (map of_char ''2LPZhNin2YU=''))"
    by (simp only: base64_encode_handler_def sample_resolved sample_encoded option.case
        sum.case option.distinct if_False)
  have decoded: "base64_decode_handler (Some base64_sender)
      [base64d_name, map of_char ''2LPZhNin2YU=''] None =
      Inr (Base64Decoded [1587, 1604, 1575, 1605])"
    "base64_decode_handler (Some base64_sender) [base64d_name]
      (Some (map of_char ''2LPZhNin2YU='')) =
      Inr (Base64Decoded [1587, 1604, 1575, 1605])"
    by (simp_all only: base64_decode_handler_def hint sample_decoded option.case sum.case
        option.distinct if_False)
  show ?thesis
    using base64_left_inverse [OF sample_unicode sample_resolved,
        where u = base64_sender and v = base64_sender and name = base64d_name
          and other_reply = None]
      sample_unicode sample_resolved encoded decoded
    by blast
qed

end
